theory Spec2Isabelle
  imports Complex_Main
begin

section \<open>Data model\<close>

text \<open>
  The script \<^verbatim>\<open>main.py\<close> drives sampled or full-graph training of a graph network.
  Tensors are lists, Python floats are idealised as reals (rounding is not modelled), and
  the one non-real float the script can produce by itself, the mean of an empty selection,
  is the value \<open>NaN\<close>. Node-level tensors of one data object all have \<open>num_nodes\<close>
  entries; the predicate \<open>wf_data\<close> below records this invariant of the data class.
\<close>

datatype aggr_mode = Add | Mean

datatype fval = Fin real | NaN

datatype error =
    KeyError string
  | TypeError
  | ZeroDivisionError
  | IndexError
  | ValueError
  | RuntimeError

text \<open>
  A data object as loaded from a dataset: node features \<open>x\<close>, the edge list
  \<open>edge_index\<close> as (row, col) pairs, labels \<open>y\<close> and the three boolean masks.
  The fields \<open>x\<close> and \<open>y\<close> are named \<open>data_x\<close> and \<open>data_y\<close>.
\<close>

record 'f data =
  data_x :: "'f list"
  edge_index :: "(nat \<times> nat) list"
  data_y :: "nat list"
  train_mask :: "bool list"
  val_mask :: "bool list"
  test_mask :: "bool list"

text \<open>The graph after line 131 of the script: the data object with \<open>edge_attr\<close>.\<close>

record 'f graph = "'f data" +
  edge_attr :: "real list"

text \<open>A sampled batch: a subgraph with its two normalisation factors.\<close>

record 'f batch = "'f graph" +
  node_norm :: "real list"
  edge_norm :: "real list"

definition num_nodes :: "('f, 'z) data_scheme \<Rightarrow> nat" where
  "num_nodes d = length (data_x d)"

definition wf_data :: "('f, 'z) data_scheme \<Rightarrow> bool" where
  "wf_data d \<longleftrightarrow>
     length (data_y d) = num_nodes d \<and> length (train_mask d) = num_nodes d \<and>
     length (val_mask d) = num_nodes d \<and> length (test_mask d) = num_nodes d"


text \<open>
  The network classes live in \<^verbatim>\<open>nets.py\<close> and the optimiser in the tensor library;
  neither is part of \<^verbatim>\<open>main.py\<close>. They are parameters of the model: \<open>forward\<close> is the
  call \<^verbatim>\<open>model(x, edge_index[, edge_weight])\<close> (it sees the parameters, the training
  flag and the aggregation mode), \<open>backward\<close> is \<^verbatim>\<open>loss.backward()\<close> (the gradient of
  the loss, given as a function of the network output), and \<open>optimizer_step\<close> is
  \<^verbatim>\<open>optimizer.step()\<close>. The type \<open>'p\<close> holds the parameters together with the
  optimiser's own moments.
\<close>

record ('p, 'f, 'g) net =
  forward :: "'p \<Rightarrow> bool \<Rightarrow> aggr_mode \<Rightarrow> 'f list \<Rightarrow> (nat \<times> nat) list \<Rightarrow> real list option
                \<Rightarrow> real list list"
  backward :: "'p \<Rightarrow> bool \<Rightarrow> aggr_mode \<Rightarrow> 'f list \<Rightarrow> (nat \<times> nat) list \<Rightarrow> real list option
                \<Rightarrow> (real list list \<Rightarrow> fval) \<Rightarrow> 'g"
  optimizer_step :: "'p \<Rightarrow> 'g \<Rightarrow> 'p"

datatype net_kind = SAGENet | GATNet

datatype sampler_kind = GraphSAINTRandomWalkSampler | MySAINTSampler

text \<open>
  Everything the program does to the outside or to the model object is appended to a
  trace: logger lines, the construction of the model, the calls on model and optimiser,
  and the archive written at the end.
\<close>

datatype event =
    InfoModelSetting
  | InfoDataset string
  | InfoSampler sampler_kind
  | InfoGCNType string
  | InfoEpoch int fval real real real real
  | InfoResults
  | InfoSetting
  | InfoBestAcc real nat real
  | InfoBestF1 real nat real
  | InfoSaveSummary
  | InfoSaveLogs
  | Construct net_kind
  | ModelTrain
  | ModelEval
  | SetAggr aggr_mode
  | ZeroGrad
  | Forward aggr_mode bool
  | Backward fval
  | OptStep
  | Savez "(string \<times> real list) list"

text \<open>
  The module-level state the four operations share: the model (parameters, training flag,
  aggregation mode), the trace, and the number of passes over the loader begun so far.
  A loader is restartable: pass number \<open>n\<close> yields the finite batch sequence \<open>loader n\<close>.
\<close>

record 'p state =
  params :: 'p
  training :: bool
  aggr :: aggr_mode
  trace :: "event list"
  passes :: nat

definition emit :: "event \<Rightarrow> 'p state \<Rightarrow> 'p state" where
  "emit e s = s\<lparr>trace := trace s @ [e]\<rparr>"

definition model_train :: "'p state \<Rightarrow> 'p state" where
  "model_train s = emit ModelTrain (s\<lparr>training := True\<rparr>)"

definition model_eval :: "'p state \<Rightarrow> 'p state" where
  "model_eval s = emit ModelEval (s\<lparr>training := False\<rparr>)"

definition set_aggr :: "aggr_mode \<Rightarrow> 'p state \<Rightarrow> 'p state" where
  "set_aggr a s = emit (SetAggr a) (s\<lparr>aggr := a\<rparr>)"

section \<open>Tensor operations used by the script\<close>

text \<open>Boolean-mask indexing \<^verbatim>\<open>t[mask]\<close>.\<close>

definition mask_select :: "'a list \<Rightarrow> bool list \<Rightarrow> 'a list" where
  "mask_select t m = map fst (filter snd (zip t m))"

text \<open>\<^verbatim>\<open>mask.sum().item()\<close> on a boolean tensor: the number of true entries.\<close>

definition bool_sum :: "bool list \<Rightarrow> nat" where
  "bool_sum m = length (filter (\<lambda>b. b) m)"

text \<open>Elementwise product \<^verbatim>\<open>a * b\<close> and equality \<^verbatim>\<open>pred.eq(y)\<close>.\<close>

definition tmul :: "real list \<Rightarrow> real list \<Rightarrow> real list" where
  "tmul a b = map2 (*) a b"

definition tensor_eq :: "nat list \<Rightarrow> nat list \<Rightarrow> bool list" where
  "tensor_eq a b = map2 (=) a b"

text \<open>\<^verbatim>\<open>t.mean()\<close>: NaN on an empty tensor.\<close>

definition tmean :: "real list \<Rightarrow> fval" where
  "tmean t = (if t = [] then NaN else Fin (sum_list t / real (length t)))"

text \<open>
  \<^verbatim>\<open>F.nll_loss(out, y, reduction='none')\<close>: for each node the negated entry of its
  output row at its label.
\<close>

definition nll_loss_none :: "real list list \<Rightarrow> nat list \<Rightarrow> real list" where
  "nll_loss_none out ys = map2 (\<lambda>row c. - (row ! c)) out ys"

text \<open>
  \<^verbatim>\<open>out.argmax(dim=-1)\<close>: per row, the index of the first maximal entry.
\<close>

fun argmax_from :: "real list \<Rightarrow> nat \<Rightarrow> nat \<Rightarrow> real \<Rightarrow> nat" where
  "argmax_from [] i best bv = best"
| "argmax_from (v # vs) i best bv =
     (if bv < v then argmax_from vs (Suc i) i v else argmax_from vs (Suc i) best bv)"

definition argmax_list :: "real list \<Rightarrow> nat" where
  "argmax_list vs = (case vs of [] \<Rightarrow> 0 | v # rest \<Rightarrow> argmax_from rest 1 0 v)"

definition argmax :: "real list list \<Rightarrow> nat list" where
  "argmax out = map argmax_list out"

text \<open>Float arithmetic on the accumulated loss; NaN propagates.\<close>

fun fadd :: "fval \<Rightarrow> fval \<Rightarrow> fval" where
  "fadd (Fin a) (Fin b) = Fin (a + b)"
| "fadd _ _ = NaN"

fun fscale :: "fval \<Rightarrow> nat \<Rightarrow> fval" where
  "fscale (Fin a) n = Fin (a * real n)"
| "fscale NaN n = NaN"

fun fdiv :: "fval \<Rightarrow> nat \<Rightarrow> fval" where
  "fdiv (Fin a) n = Fin (a / real n)"
| "fdiv NaN n = NaN"

text \<open>Python's \<^verbatim>\<open>a / b\<close> on two integers: a float, or ZeroDivisionError.\<close>

definition int_div :: "nat \<Rightarrow> nat \<Rightarrow> error + real" where
  "int_div a b = (if b = 0 then Inl ZeroDivisionError else Inr (real a / real b))"

text \<open>
  Modelled from the spec: \<^verbatim>\<open>f1_score(y_true, y_pred, average='macro')\<close> belongs to the
  metrics library, not to this repository; the glossary defines macro-F1 as the unweighted
  mean of the per-class F1 scores. The classes are the labels occurring in either
  argument, and the F1 of a class is \<open>2 tp / (2 tp + fp + fn)\<close>. The script never
  reaches it with empty arguments (the accuracy loop divides by the mask size first).
\<close>

definition unique_labels :: "nat list \<Rightarrow> nat list \<Rightarrow> nat list" where
  "unique_labels y_true y_pred = sort (remdups (y_true @ y_pred))"

definition class_f1 :: "nat list \<Rightarrow> nat list \<Rightarrow> nat \<Rightarrow> real" where
  "class_f1 y_true y_pred c =
     (let ps = zip y_true y_pred;
          tp = length (filter (\<lambda>(t, p). t = c \<and> p = c) ps);
          fp = length (filter (\<lambda>(t, p). t \<noteq> c \<and> p = c) ps);
          fn = length (filter (\<lambda>(t, p). t = c \<and> p \<noteq> c) ps)
      in if 2 * tp + fp + fn = 0 then 0 else real (2 * tp) / real (2 * tp + fp + fn))"

definition f1_score :: "nat list \<Rightarrow> nat list \<Rightarrow> real" where
  "f1_score y_true y_pred =
     (let ls = unique_labels y_true y_pred
      in if ls = [] then 0 else sum_list (map (class_f1 y_true y_pred) ls) / real (length ls))"

section \<open>The four operations\<close>

text \<open>A call of the model: the forward pass under the current mode, recorded in the trace.\<close>

definition model_call ::
  "('p, 'f, 'g) net \<Rightarrow> 'p state \<Rightarrow> 'f list \<Rightarrow> (nat \<times> nat) list \<Rightarrow> real list option
     \<Rightarrow> real list list \<times> 'p state" where
  "model_call nt s xs ei w =
     (forward nt (params s) (training s) (aggr s) xs ei w, emit (Forward (aggr s) (w \<noteq> None)) s)"

text \<open>\<^verbatim>\<open>loss.backward(); optimizer.step()\<close> for a loss given as a function of the output.\<close>

definition backward_and_step ::
  "('p, 'f, 'g) net \<Rightarrow> 'p state \<Rightarrow> 'f list \<Rightarrow> (nat \<times> nat) list \<Rightarrow> real list option
     \<Rightarrow> (real list list \<Rightarrow> fval) \<Rightarrow> fval \<Rightarrow> 'p state" where
  "backward_and_step nt s xs ei w loss_fn loss =
     (let g = backward nt (params s) (training s) (aggr s) xs ei w loss_fn;
          s1 = emit (Backward loss) s
      in emit OptStep (s1\<lparr>params := optimizer_step nt (params s1) g\<rparr>))"

subsection \<open>train_sample\<close>

definition sample_weight :: "int \<Rightarrow> 'f batch \<Rightarrow> real list option" where
  "sample_weight norm_loss b =
     (if norm_loss = 1 then Some (tmul (edge_norm b) (edge_attr b)) else None)"

definition sample_loss :: "int \<Rightarrow> 'f batch \<Rightarrow> real list list \<Rightarrow> fval" where
  "sample_loss norm_loss b out =
     (if norm_loss = 1
      then Fin (sum_list (mask_select (tmul (nll_loss_none out (data_y b)) (node_norm b))
                                      (train_mask b)))
      else tmean (mask_select (nll_loss_none out (data_y b)) (train_mask b)))"

fun train_batch ::
  "('p, 'f, 'g) net \<Rightarrow> int \<Rightarrow> 'f batch \<Rightarrow> 'p state \<times> fval \<times> nat \<Rightarrow> 'p state \<times> fval \<times> nat" where
  "train_batch nt norm_loss b (s, total_loss, total_examples) =
     (let s1 = emit ZeroGrad s;
          w = sample_weight norm_loss b;
          (out, s2) = model_call nt s1 (data_x b) (edge_index b) w;
          loss = sample_loss norm_loss b out;
          s3 = backward_and_step nt s2 (data_x b) (edge_index b) w (sample_loss norm_loss b) loss
      in (s3, fadd total_loss (fscale loss (num_nodes b)), total_examples + num_nodes b))"

fun train_loop ::
  "('p, 'f, 'g) net \<Rightarrow> int \<Rightarrow> 'f batch list \<Rightarrow> 'p state \<times> fval \<times> nat \<Rightarrow> 'p state \<times> fval \<times> nat" where
  "train_loop nt norm_loss [] acc = acc"
| "train_loop nt norm_loss (b # bs) acc = train_loop nt norm_loss bs (train_batch nt norm_loss b acc)"

definition train_sample ::
  "('p, 'f, 'g) net \<Rightarrow> (nat \<Rightarrow> 'f batch list) \<Rightarrow> int \<Rightarrow> 'p state \<Rightarrow> (error + fval) \<times> 'p state" where
  "train_sample nt loader norm_loss s =
     (let s1 = model_train s;
          s2 = set_aggr Add s1;
          batches = loader (passes s2);
          s3 = s2\<lparr>passes := Suc (passes s2)\<rparr>;
          (s4, total_loss, total_examples) = train_loop nt norm_loss batches (s3, Fin 0, 0)
      in if total_examples = 0 then (Inl ZeroDivisionError, s4)
         else (Inr (fdiv total_loss total_examples), s4))"

subsection \<open>train_full\<close>

definition full_loss :: "('f, 'z) data_scheme \<Rightarrow> real list list \<Rightarrow> fval" where
  "full_loss d out =
     tmean (nll_loss_none (mask_select out (train_mask d)) (mask_select (data_y d) (train_mask d)))"

definition train_full ::
  "('p, 'f, 'g) net \<Rightarrow> ('f, 'z) data_scheme \<Rightarrow> 'p state \<Rightarrow> (error + fval) \<times> 'p state" where
  "train_full nt d s =
     (let s1 = model_train s;
          s2 = set_aggr Mean s1;
          s3 = emit ZeroGrad s2;
          (out, s4) = model_call nt s3 (data_x d) (edge_index d) None;
          loss = full_loss d out;
          s5 = backward_and_step nt s4 (data_x d) (edge_index d) None (full_loss d) loss
      in (Inr loss, s5))"

subsection \<open>eval_full\<close>

text \<open>\<^verbatim>\<open>data('train_mask', 'val_mask', 'test_mask')\<close>: the three masks in this order.\<close>

definition masks :: "('f, 'z) data_scheme \<Rightarrow> bool list list" where
  "masks d = [train_mask d, val_mask d, test_mask d]"

text \<open>The accuracy loop: one quotient per mask, appended; a zero mask size raises.\<close>

fun accs_loop :: "bool list \<Rightarrow> bool list list \<Rightarrow> real list \<Rightarrow> error + real list" where
  "accs_loop correct [] accs = Inr accs"
| "accs_loop correct (m # ms) accs =
     (case int_div (bool_sum (mask_select correct m)) (bool_sum m) of
        Inl e \<Rightarrow> Inl e
      | Inr a \<Rightarrow> accs_loop correct ms (accs @ [a]))"

fun f1_loop :: "nat list \<Rightarrow> nat list \<Rightarrow> bool list list \<Rightarrow> real list \<Rightarrow> real list" where
  "f1_loop ys pred [] f1_scores = f1_scores"
| "f1_loop ys pred (m # ms) f1_scores =
     f1_loop ys pred ms (f1_scores @ [f1_score (mask_select ys m) (mask_select pred m)])"

text \<open>The part of both evaluations after the forward pass.\<close>

definition score :: "('f, 'z) data_scheme \<Rightarrow> real list list \<Rightarrow> error + real list \<times> real list" where
  "score d out =
     (let pred = argmax out;
          correct = tensor_eq pred (data_y d)
      in case accs_loop correct (masks d) [] of
           Inl e \<Rightarrow> Inl e
         | Inr accs \<Rightarrow> Inr (accs, f1_loop (data_y d) pred (masks d) []))"

definition eval_full ::
  "('p, 'f, 'g) net \<Rightarrow> ('f, 'z) data_scheme \<Rightarrow> 'p state
     \<Rightarrow> (error + real list \<times> real list) \<times> 'p state" where
  "eval_full nt d s =
     (let s1 = model_eval s;
          s2 = set_aggr Mean s1;
          (out, s3) = model_call nt s2 (data_x d) (edge_index d) None
      in (score d out, s3))"

subsection \<open>eval_sample\<close>

fun eval_loop ::
  "('p, 'f, 'g) net \<Rightarrow> int \<Rightarrow> 'f batch list \<Rightarrow> 'p state \<Rightarrow> real list list \<Rightarrow> real list list
     \<Rightarrow> (error + real list list \<times> real list list) \<times> 'p state" where
  "eval_loop nt norm_loss [] s accs_all f1_scores_all = (Inr (accs_all, f1_scores_all), s)"
| "eval_loop nt norm_loss (b # bs) s accs_all f1_scores_all =
     (let (out, s1) = model_call nt s (data_x b) (edge_index b) (sample_weight norm_loss b)
      in case score b out of
           Inl e \<Rightarrow> (Inl e, s1)
         | Inr (accs_batch, f1_scores_batch) \<Rightarrow>
             eval_loop nt norm_loss bs s1 (accs_all @ [accs_batch])
               (f1_scores_all @ [f1_scores_batch]))"

text \<open>
  \<^verbatim>\<open>np.mean(a[:, i])\<close> on the array made from the list of rows. An empty list of rows
  becomes a one-dimensional array, and indexing it with \<^verbatim>\<open>[:, i]\<close> raises IndexError.
\<close>

definition column :: "real list list \<Rightarrow> nat \<Rightarrow> real list" where
  "column rows i = map (\<lambda>r. r ! i) rows"

definition np_mean :: "real list \<Rightarrow> real" where
  "np_mean v = sum_list v / real (length v)"

definition column_mean :: "real list list \<Rightarrow> nat \<Rightarrow> error + real" where
  "column_mean rows i = (if rows = [] then Inl IndexError else Inr (np_mean (column rows i)))"

fun means_loop ::
  "real list list \<Rightarrow> real list list \<Rightarrow> nat list \<Rightarrow> real list \<Rightarrow> real list
     \<Rightarrow> error + real list \<times> real list" where
  "means_loop accs_all f1_scores_all [] accs f1_scores = Inr (accs, f1_scores)"
| "means_loop accs_all f1_scores_all (i # is) accs f1_scores =
     (case column_mean accs_all i of
        Inl e \<Rightarrow> Inl e
      | Inr a \<Rightarrow>
          (case column_mean f1_scores_all i of
             Inl e \<Rightarrow> Inl e
           | Inr f \<Rightarrow> means_loop accs_all f1_scores_all is (accs @ [a]) (f1_scores @ [f])))"

definition eval_sample ::
  "('p, 'f, 'g) net \<Rightarrow> (nat \<Rightarrow> 'f batch list) \<Rightarrow> int \<Rightarrow> 'p state
     \<Rightarrow> (error + real list \<times> real list) \<times> 'p state" where
  "eval_sample nt loader norm_loss s =
     (let s1 = model_eval s;
          s2 = set_aggr Add s1;
          batches = loader (passes s2);
          s3 = s2\<lparr>passes := Suc (passes s2)\<rparr>
      in case eval_loop nt norm_loss batches s3 [] [] of
           (Inl e, s4) \<Rightarrow> (Inl e, s4)
         | (Inr (accs_all, f1_scores_all), s4) \<Rightarrow>
             (means_loop accs_all f1_scores_all [0, 1, 2] [] [], s4))"

section \<open>The script body\<close>

text \<open>
  The command-line arguments the script reads. The flags \<^verbatim>\<open>train_sample\<close> and
  \<^verbatim>\<open>eval_sample\<close> carry the suffix \<open>_flag\<close> here, the functions keep the plain names.
  Device placement and the log destination do not change a value and are left out.
\<close>

record args =
  dataset :: string
  sampler :: string
  gcn_type :: string
  batch_size :: int
  epochs :: int
  train_sample_flag :: int
  eval_sample_flag :: int
  loss_norm :: int
  log_interval :: int

text \<open>
  What the script imports from outside \<^verbatim>\<open>main.py\<close>: the dataset classes (the first
  graph of the named dataset), the sampler classes (a loader over the prepared graph),
  and the network classes (their operations, the freshly constructed parameters with the
  optimiser created on them, and the aggregation mode a new model starts in).
\<close>

record ('p, 'f, 'g) env =
  datasets :: "string \<Rightarrow> 'f data"
  samplers :: "sampler_kind \<Rightarrow> 'f graph \<Rightarrow> int \<Rightarrow> nat \<Rightarrow> 'f batch list"
  nets :: "net_kind \<Rightarrow> ('p, 'f, 'g) net"
  new_params :: "net_kind \<Rightarrow> 'f data \<Rightarrow> 'p"
  new_aggr :: "net_kind \<Rightarrow> aggr_mode"

subsection \<open>Lines 129 to 131: the edge attribute\<close>

text \<open>
  \<^verbatim>\<open>degree(index, n)\<close> counts, for each node below \<open>n\<close>, its occurrences in
  \<open>index\<close>; an index outside the range is an error of the tensor library. \<^verbatim>\<open>t[idx]\<close>
  reads \<open>t\<close> at each index.
\<close>

definition degree :: "nat list \<Rightarrow> nat \<Rightarrow> error + real list" where
  "degree index n =
     (if list_all (\<lambda>i. i < n) index
      then Inr (map (\<lambda>v. real (count_list index v)) [0..<n])
      else Inl RuntimeError)"

definition index_select :: "'a list \<Rightarrow> nat list \<Rightarrow> error + 'a list" where
  "index_select t idx =
     (if list_all (\<lambda>i. i < length t) idx then Inr (map (\<lambda>i. t ! i) idx) else Inl IndexError)"

definition set_edge_attr :: "'f data \<Rightarrow> error + 'f graph" where
  "set_edge_attr d =
     (let col = map snd (edge_index d)
      in case degree col (num_nodes d) of
           Inl e \<Rightarrow> Inl e
         | Inr deg \<Rightarrow>
             (case index_select deg col of
                Inl e \<Rightarrow> Inl e
              | Inr deg_col \<Rightarrow>
                  Inr \<lparr>data_x = data_x d, edge_index = edge_index d, data_y = data_y d,
                       train_mask = train_mask d, val_mask = val_mask d,
                       test_mask = test_mask d, edge_attr = map (\<lambda>v. 1 / v) deg_col\<rparr>))"

subsection \<open>The epoch loop and the summary\<close>

record summary =
  summary_accs_train :: "real list"
  summary_accs_test :: "real list"
  summary_f1s_train :: "real list"
  summary_f1s_test :: "real list"

definition epoch_body ::
  "('p, 'f, 'g) net \<Rightarrow> (nat \<Rightarrow> 'f batch list) \<Rightarrow> 'f graph \<Rightarrow> args \<Rightarrow> int \<Rightarrow> 'p state \<Rightarrow> summary
     \<Rightarrow> (error + summary) \<times> 'p state" where
  "epoch_body nt loader d a epoch s sm =
     (case (if train_sample_flag a = 1 then train_sample nt loader (loss_norm a) s
            else train_full nt d s) of
        (Inl e, s1) \<Rightarrow> (Inl e, s1)
      | (Inr loss, s1) \<Rightarrow>
          (case (if eval_sample_flag a = 1 then eval_sample nt loader (loss_norm a) s1
                 else eval_full nt d s1) of
             (Inl e, s2) \<Rightarrow> (Inl e, s2)
           | (Inr (accs, f1_scores), s2) \<Rightarrow>
               if log_interval a = 0 then (Inl ZeroDivisionError, s2)
               else
                 (let s3 = (if epoch mod log_interval a = 0
                            then emit (InfoEpoch epoch loss (accs ! 0) (f1_scores ! 0)
                                         (accs ! 2) (f1_scores ! 2)) s2
                            else s2)
                  in (Inr \<lparr>summary_accs_train = summary_accs_train sm @ [accs ! 0],
                           summary_accs_test = summary_accs_test sm @ [accs ! 2],
                           summary_f1s_train = summary_f1s_train sm @ [f1_scores ! 0],
                           summary_f1s_test = summary_f1s_test sm @ [f1_scores ! 2]\<rparr>, s3))))"

fun epoch_loop ::
  "('p, 'f, 'g) net \<Rightarrow> (nat \<Rightarrow> 'f batch list) \<Rightarrow> 'f graph \<Rightarrow> args \<Rightarrow> int list \<Rightarrow> 'p state \<Rightarrow> summary
     \<Rightarrow> (error + summary) \<times> 'p state" where
  "epoch_loop nt loader d a [] s sm = (Inr sm, s)"
| "epoch_loop nt loader d a (epoch # rest) s sm =
     (case epoch_body nt loader d a epoch s sm of
        (Inl e, s1) \<Rightarrow> (Inl e, s1)
      | (Inr sm1, s1) \<Rightarrow> epoch_loop nt loader d a rest s1 sm1)"

text \<open>
  \<^verbatim>\<open>a.max()\<close> and \<^verbatim>\<open>a.argmax()\<close> of a numeric array: the largest entry and the
  position, counted from 0, of its first occurrence. On an empty array \<^verbatim>\<open>max\<close> raises
  ValueError.
\<close>

fun np_max :: "real list \<Rightarrow> real" where
  "np_max [] = 0"
| "np_max [v] = v"
| "np_max (v # vs) = max v (np_max vs)"

definition best_line :: "real list \<Rightarrow> real list \<Rightarrow> error + real \<times> nat \<times> real" where
  "best_line a b =
     (if a = [] then Inl ValueError else Inr (np_max a, argmax_list a, b ! argmax_list a))"

definition report :: "summary \<Rightarrow> 'p state \<Rightarrow> (error + (string \<times> real list) list) \<times> 'p state" where
  "report sm s =
     (let s1 = emit InfoSetting (emit InfoResults s)
      in case best_line (summary_accs_test sm) (summary_f1s_test sm) of
           Inl e \<Rightarrow> (Inl e, s1)
         | Inr (acc, i, f1) \<Rightarrow>
             (let s2 = emit (InfoBestAcc acc i f1) s1
              in case best_line (summary_f1s_test sm) (summary_accs_test sm) of
                   Inl e \<Rightarrow> (Inl e, s2)
                 | Inr (f1', j, acc') \<Rightarrow>
                     (let s3 = emit (InfoBestF1 f1' j acc') s2;
                          archive = [(''train_acc'', summary_accs_train sm),
                                     (''test_acc'', summary_accs_test sm),
                                     (''train_f1'', summary_f1s_train sm),
                                     (''test_f1'', summary_f1s_test sm)];
                          s4 = emit InfoSaveLogs (emit InfoSaveSummary (emit (Savez archive) s3))
                      in (Inr archive, s4))))"

subsection \<open>main\<close>

text \<open>\<^verbatim>\<open>{'sage': SAGENet, 'gat': GATNet}.get(args.gcn_type)\<close>: None for any other key.\<close>

definition Net_lookup :: "string \<Rightarrow> net_kind option" where
  "Net_lookup t = map_of [(''sage'', SAGENet), (''gat'', GATNet)] t"

text \<open>
  The script from the dataset selection to the end. Calling \<^verbatim>\<open>Net(...)\<close> when the
  lookup gave None raises TypeError.
\<close>

definition main ::
  "('p, 'f, 'g) env \<Rightarrow> args \<Rightarrow> (error + (string \<times> real list) list) \<times> event list" where
  "main ev a =
     (let t0 = [InfoModelSetting]
      in if dataset a \<noteq> ''flickr'' \<and> dataset a \<noteq> ''reddit''
         then (Inl (KeyError ''Dataset name error''), t0)
         else
           (let ds = datasets ev (dataset a);
                t1 = t0 @ [InfoDataset (dataset a)]
            in case set_edge_attr ds of
                 Inl e \<Rightarrow> (Inl e, t1)
               | Inr d \<Rightarrow>
                   (case (if sampler a = ''rw'' then Some GraphSAINTRandomWalkSampler
                          else if sampler a = ''rn'' then Some MySAINTSampler
                          else None) of
                      None \<Rightarrow> (Inl (KeyError ''Sampler type error''), t1)
                    | Some k \<Rightarrow>
                        (let t2 = t1 @ [InfoSampler k];
                             loader = samplers ev k d (batch_size a);
                             Net = Net_lookup (gcn_type a);
                             t3 = t2 @ [InfoGCNType (gcn_type a)]
                         in case Net of
                              None \<Rightarrow> (Inl TypeError, t3)
                            | Some n \<Rightarrow>
                                (let s0 = \<lparr>params = new_params ev n ds, training = True,
                                           aggr = new_aggr ev n, trace = t3 @ [Construct n],
                                           passes = 0\<rparr>;
                                     sm0 = \<lparr>summary_accs_train = [], summary_accs_test = [],
                                            summary_f1s_train = [], summary_f1s_test = []\<rparr>
                                 in case epoch_loop (nets ev n) loader d a [1..epochs a] s0 sm0 of
                                      (Inl e, s1) \<Rightarrow> (Inl e, trace s1)
                                    | (Inr sm, s1) \<Rightarrow>
                                        (case report sm s1 of
                                           (r, s2) \<Rightarrow> (r, trace s2)))))))"

section \<open>Reference notions, in the words of the specification\<close>

text \<open>The nodes a mask selects among the first \<open>n\<close>, and the per-node negative
  log-likelihood of an output.\<close>

definition masked_nodes :: "bool list \<Rightarrow> nat \<Rightarrow> nat set" where
  "masked_nodes m n = {i. i < n \<and> m ! i}"




text \<open>The trace of one training step on a batch with loss \<open>l\<close>.\<close>

definition batch_events :: "int \<Rightarrow> fval \<Rightarrow> event list" where
  "batch_events norm_loss l = [ZeroGrad, Forward Add (norm_loss = 1), Backward l, OptStep]"

text \<open>The network returns one output row per node.\<close>

definition wf_net :: "('p, 'f, 'g) net \<Rightarrow> bool" where
  "wf_net nt \<longleftrightarrow> (\<forall>p t a xs ei w. length (forward nt p t a xs ei w) = length xs)"

text \<open>
  Accuracy of a prediction on a mask: the fraction of the masked nodes predicted right.
  Macro-F1 on a mask: the macro-F1 of the predictions against the labels at the masked
  nodes. The arithmetic mean of a metric over the batches.
\<close>

definition accuracy :: "nat list \<Rightarrow> nat list \<Rightarrow> bool list \<Rightarrow> real" where
  "accuracy pred ys m =
     real (card {i \<in> masked_nodes m (length ys). pred ! i = ys ! i})
       / real (card (masked_nodes m (length ys)))"

definition macro_f1 :: "nat list \<Rightarrow> nat list \<Rightarrow> bool list \<Rightarrow> real" where
  "macro_f1 pred ys m = f1_score (mask_select ys m) (mask_select pred m)"

definition batch_pred :: "('p, 'f, 'g) net \<Rightarrow> 'p \<Rightarrow> int \<Rightarrow> 'f batch \<Rightarrow> nat list" where
  "batch_pred nt p norm_loss b =
     argmax (forward nt p False Add (data_x b) (edge_index b) (sample_weight norm_loss b))"

definition mean_over :: "'a list \<Rightarrow> ('a \<Rightarrow> real) \<Rightarrow> real" where
  "mean_over bs f = (\<Sum>b\<leftarrow>bs. f b) / real (length bs)"

text \<open>A mask that selects no node, and a data object one of whose three masks does.\<close>

definition empty_mask :: "bool list \<Rightarrow> bool" where
  "empty_mask m \<longleftrightarrow> True \<notin> set m"

definition has_empty_mask :: "('f, 'z) data_scheme \<Rightarrow> bool" where
  "has_empty_mask d \<longleftrightarrow> list_ex empty_mask (masks d)"

text \<open>The in-degree of a node: the number of edges whose target it is.\<close>

definition in_degree :: "(nat \<times> nat) list \<Rightarrow> nat \<Rightarrow> nat" where
  "in_degree es v = card {e. e < length es \<and> snd (es ! e) = v}"

section \<open>A small concrete run\<close>

text \<open>
  Three nodes with labels 0, 1, 0, one node per mask. The parameters are a counter that
  each optimiser step increments; the network predicts class 1 everywhere while the
  counter is below 2 and class 0 everywhere from then on.
\<close>

definition ex_data :: "nat data" where
  "ex_data = \<lparr>data_x = [0, 1, 2], edge_index = [(0, 1), (1, 2), (0, 2)], data_y = [0, 1, 0],
              train_mask = [True, False, False], val_mask = [False, True, False],
              test_mask = [False, False, True]\<rparr>"

definition ex_graph :: "nat graph" where
  "ex_graph = \<lparr>data_x = [0, 1, 2], edge_index = [(0, 1), (1, 2), (0, 2)], data_y = [0, 1, 0],
               train_mask = [True, False, False], val_mask = [False, True, False],
               test_mask = [False, False, True], edge_attr = [1, 1 / 2, 1 / 2]\<rparr>"

definition ex_batch :: "nat batch" where
  "ex_batch = \<lparr>data_x = [0, 1, 2], edge_index = [(0, 1), (1, 2), (0, 2)], data_y = [0, 1, 0],
               train_mask = [True, False, False], val_mask = [False, True, False],
               test_mask = [False, False, True], edge_attr = [1, 1 / 2, 1 / 2],
               node_norm = [2, 1, 1], edge_norm = [1, 1, 1]\<rparr>"

definition ex_net :: "(nat, nat, nat) net" where
  "ex_net = \<lparr>forward = (\<lambda>p t a xs ei w. map (\<lambda>_. [real p - 5 / 2, - 1]) xs),
             backward = (\<lambda>p t a xs ei w f. 0),
             optimizer_step = (\<lambda>p g. Suc p)\<rparr>"

definition ex_state :: "nat state" where
  "ex_state = \<lparr>params = 0, training = True, aggr = Mean, trace = [], passes = 0\<rparr>"

definition ex_env :: "(nat, nat, nat) env" where
  "ex_env = \<lparr>datasets = (\<lambda>_. ex_data), samplers = (\<lambda>k g n i. [ex_batch]),
             nets = (\<lambda>_. ex_net), new_params = (\<lambda>k d. 0), new_aggr = (\<lambda>_. Mean)\<rparr>"

definition ex_args :: args where
  "ex_args = \<lparr>dataset = ''flickr'', sampler = ''rn'', gcn_type = ''sage'', batch_size = 1000,
              epochs = 2, train_sample_flag = 1, eval_sample_flag = 1, loss_norm = 1,
              log_interval = 1\<rparr>"

text \<open>
  An event that leaves the aggregation mode \<open>m\<close> in force: a forward pass run under
  \<open>m\<close>, or any event other than a change of the mode.
\<close>

fun mode_kept :: "aggr_mode \<Rightarrow> event \<Rightarrow> bool" where
  "mode_kept m (Forward a w) = (a = m)"
| "mode_kept m (SetAggr a) = False"
| "mode_kept m e = True"

text \<open>The rows of per-mask accuracies and macro-F1 scores of a prediction.\<close>

definition accuracies :: "nat list \<Rightarrow> ('f, 'z) data_scheme \<Rightarrow> real list" where
  "accuracies pred d = map (accuracy pred (data_y d)) (masks d)"

definition macro_f1s :: "nat list \<Rightarrow> ('f, 'z) data_scheme \<Rightarrow> real list" where
  "macro_f1s pred d = map (macro_f1 pred (data_y d)) (masks d)"

text \<open>Loaders for the run above: one batch per pass, no batch at all, and one batch whose
  test mask selects no node; and the graph with that empty test mask.\<close>

definition ex_loader :: "nat \<Rightarrow> nat batch list" where
  "ex_loader = (\<lambda>_. [ex_batch])"

definition ex_empty_loader :: "nat \<Rightarrow> nat batch list" where
  "ex_empty_loader = (\<lambda>_. [])"

definition ex_batch_no_test :: "nat batch" where
  "ex_batch_no_test = ex_batch\<lparr>test_mask := [False, False, False]\<rparr>"

definition ex_loader_no_test :: "nat \<Rightarrow> nat batch list" where
  "ex_loader_no_test = (\<lambda>_. [ex_batch_no_test])"

definition ex_graph_no_test :: "nat graph" where
  "ex_graph_no_test = ex_graph\<lparr>test_mask := [False, False, False]\<rparr>"

text \<open>The events of the batch steps: calls on the model and the optimiser.\<close>

fun step_event :: "event \<Rightarrow> bool" where
  "step_event ZeroGrad = True"
| "step_event (Forward a w) = True"
| "step_event (Backward l) = True"
| "step_event OptStep = True"
| "step_event e = False"

text \<open>
  A pass on which the sampled operations complete: at least one batch, every batch
  well-formed and with at least one node in each of its three masks.
\<close>

definition complete_pass :: "'f batch list \<Rightarrow> bool" where
  "complete_pass bs \<longleftrightarrow> bs \<noteq> [] \<and> list_all wf_data bs \<and> \<not> list_ex has_empty_mask bs"

text \<open>
  The epoch driver as the specification words it: per epoch one training operation, which
  returns the epoch's loss, then one evaluation, which returns the epoch's accuracies and
  macro-F1 scores, then the log line if the log interval divides the epoch. The relation
  holds when the epochs \<open>es\<close>, started in state \<open>s\<close>, all complete, with the values
  \<open>rs\<close> (one triple of loss, accuracies and macro-F1 scores per epoch) and final state
  \<open>s'\<close>.
\<close>

inductive epochs_run ::
  "('p, 'f, 'g) net \<Rightarrow> (nat \<Rightarrow> 'f batch list) \<Rightarrow> 'f graph \<Rightarrow> args \<Rightarrow> int list \<Rightarrow> 'p state
     \<Rightarrow> (fval \<times> real list \<times> real list) list \<Rightarrow> 'p state \<Rightarrow> bool"
  for nt :: "('p, 'f, 'g) net" and loader :: "nat \<Rightarrow> 'f batch list" and d :: "'f graph"
    and a :: args
where
  no_epoch: "epochs_run nt loader d a [] s [] s"
| one_epoch:
    "(if train_sample_flag a = 1 then train_sample nt loader (loss_norm a) s
      else train_full nt d s) = (Inr loss, s1) \<Longrightarrow>
     (if eval_sample_flag a = 1 then eval_sample nt loader (loss_norm a) s1
      else eval_full nt d s1) = (Inr (accs, f1_scores), s2) \<Longrightarrow>
     log_interval a \<noteq> 0 \<Longrightarrow>
     s3 = (if epoch mod log_interval a = 0
           then emit (InfoEpoch epoch loss (accs ! 0) (f1_scores ! 0) (accs ! 2) (f1_scores ! 2)) s2
           else s2) \<Longrightarrow>
     epochs_run nt loader d a rest s3 rs s' \<Longrightarrow>
     epochs_run nt loader d a (epoch # rest) s ((loss, accs, f1_scores) # rs) s'"

text \<open>
  The archive of a run with per-epoch values \<open>rs\<close>: four named arrays holding, epoch by
  epoch, the train and the test entry of the accuracies and of the macro-F1 scores. And
  the events of the summary: the two header lines, the best test accuracy with its position
  and the macro-F1 at that position, the best test macro-F1 likewise, the archive, and the
  two closing lines.
\<close>

definition archive_of :: "(fval \<times> real list \<times> real list) list \<Rightarrow> (string \<times> real list) list" where
  "archive_of rs =
     [(''train_acc'', map (\<lambda>(loss, accs, f1_scores). accs ! 0) rs),
      (''test_acc'', map (\<lambda>(loss, accs, f1_scores). accs ! 2) rs),
      (''train_f1'', map (\<lambda>(loss, accs, f1_scores). f1_scores ! 0) rs),
      (''test_f1'', map (\<lambda>(loss, accs, f1_scores). f1_scores ! 2) rs)]"

definition report_events :: "(fval \<times> real list \<times> real list) list \<Rightarrow> event list" where
  "report_events rs =
     (let test_acc = map (\<lambda>(loss, accs, f1_scores). accs ! 2) rs;
          test_f1 = map (\<lambda>(loss, accs, f1_scores). f1_scores ! 2) rs
      in [InfoResults, InfoSetting,
          InfoBestAcc (np_max test_acc) (argmax_list test_acc) (test_f1 ! argmax_list test_acc),
          InfoBestF1 (np_max test_f1) (argmax_list test_f1) (test_acc ! argmax_list test_f1),
          Savez (archive_of rs), InfoSaveSummary, InfoSaveLogs])"

text \<open>The state in which the epoch loop starts: the freshly constructed model of class
  \<open>n\<close>, after the start-up log lines for sampler \<open>k\<close>.\<close>

definition initial_state :: "('p, 'f, 'g) env \<Rightarrow> args \<Rightarrow> net_kind \<Rightarrow> sampler_kind \<Rightarrow> 'p state" where
  "initial_state ev a n k =
     \<lparr>params = new_params ev n (datasets ev (dataset a)), training = True,
      aggr = new_aggr ev n,
      trace = [InfoModelSetting, InfoDataset (dataset a), InfoSampler k,
               InfoGCNType (gcn_type a), Construct n],
      passes = 0\<rparr>"

section \<open>Masked sums and counts\<close>

lemma mask_select_nth:
  "length m = length t \<Longrightarrow> mask_select t m = map ((!) t) (filter ((!) m) [0..<length t])"
proof (induction t arbitrary: m rule: rev_induct)
  case Nil
  then show ?case by (simp add: mask_select_def)
next
  case (snoc x t)
  then obtain m' b where m: "m = m' @ [b]" and len: "length m' = length t"
    by (cases m rule: rev_cases) auto
  have ih: "mask_select t m' = map ((!) t) (filter ((!) m') [0..<length t])"
    using snoc.IH len by simp
  have f: "filter ((!) (m' @ [b])) [0..<length t] = filter ((!) m') [0..<length t]"
    using len by (intro filter_cong) (auto simp: nth_append)
  have g: "map ((!) (t @ [x])) (filter ((!) m') [0..<length t]) = map ((!) t) (filter ((!) m') [0..<length t])"
    by (intro map_cong) (auto simp: nth_append)
  have lhs: "mask_select (t @ [x]) (m' @ [b]) = mask_select t m' @ (if b then [x] else [])"
    using len by (simp add: mask_select_def)
  have last: "(m' @ [b]) ! length t = b" "(t @ [x]) ! length t = x"
    using len by (simp_all add: nth_append)
  have rhs: "map ((!) (t @ [x])) (filter ((!) (m' @ [b])) [0..<length (t @ [x])])
      = map ((!) t) (filter ((!) m') [0..<length t]) @ (if b then [x] else [])"
    by (simp only: length_append_singleton upt_Suc_append[OF le0] filter_append map_append f g)
       (simp add: last)
  show ?case
    unfolding m lhs rhs ih ..
qed


lemma length_mask_select:
  assumes "length m = length t"
  shows "length (mask_select t m) = card {i. i < length t \<and> m ! i}"
proof -
  have "length (mask_select t m) = length (filter ((!) m) [0..<length t])"
    using assms by (simp add: mask_select_nth)
  also have "\<dots> = card (set (filter ((!) m) [0..<length t]))"
    by (rule distinct_card[symmetric]) simp
  also have "set (filter ((!) m) [0..<length t]) = {i. i < length t \<and> m ! i}"
    by auto
  finally show ?thesis .
qed

section \<open>The training loss of a batch\<close>




lemma mask_select_empty_iff:
  assumes "length m = length t"
  shows "mask_select t m = [] \<longleftrightarrow> masked_nodes m (length t) = {}"
proof -
  have "finite {i. i < length t \<and> m ! i}" by simp
  then show ?thesis
    using length_mask_select[OF assms] by (simp add: masked_nodes_def card_eq_0_iff del: length_0_conv flip: length_0_conv)
qed


lemma train_batch_step:
  assumes "aggr s = Add" "training s = True"
  shows "train_batch nt nl b (s, tot, te) =
     (s\<lparr>params := optimizer_step nt (params s)
            (backward nt (params s) True Add (data_x b) (edge_index b) (sample_weight nl b)
               (sample_loss nl b)),
        trace := trace s @ batch_events nl
            (sample_loss nl b (forward nt (params s) True Add (data_x b) (edge_index b)
               (sample_weight nl b)))\<rparr>,
      fadd tot (fscale (sample_loss nl b (forward nt (params s) True Add (data_x b) (edge_index b)
               (sample_weight nl b))) (num_nodes b)),
      te + num_nodes b)"
  using assms
  by (simp add: model_call_def backward_and_step_def emit_def batch_events_def Let_def
        sample_weight_def)




lemma count_list_app: "count_list (xs @ ys) v = count_list xs v + count_list ys v"
  by (induction xs) simp_all



section \<open>The aggregation mode of the four operations\<close>

lemma train_loop_mode:
  assumes "aggr s = Add" "training s = True"
    and "train_loop nt nl bs (s, tot, te) = (s', tot', te')"
  shows "\<exists>t. trace s' = trace s @ t \<and> list_all (mode_kept Add) t \<and> aggr s' = Add"
  using assms
proof (induction bs arbitrary: s tot te)
  case Nil
  then show ?case by simp
next
  case (Cons b bs)
  obtain s1 tot1 te1 where step: "train_batch nt nl b (s, tot, te) = (s1, tot1, te1)"
    by (cases "train_batch nt nl b (s, tot, te)") auto
  have s1: "aggr s1 = Add" "training s1 = True"
    and tr1: "\<exists>t. trace s1 = trace s @ t \<and> list_all (mode_kept Add) t"
    using step Cons.prems(1,2) unfolding train_batch_step[OF Cons.prems(1,2)]
    by (auto simp: batch_events_def)
  have rest: "train_loop nt nl bs (s1, tot1, te1) = (s', tot', te')"
    using Cons.prems(3) step by simp
  from Cons.IH[OF s1 rest] tr1 show ?case
    by auto
qed

lemma model_call_simps:
  "fst (model_call nt s xs ei w) = forward nt (params s) (training s) (aggr s) xs ei w"
  "snd (model_call nt s xs ei w) = s\<lparr>trace := trace s @ [Forward (aggr s) (w \<noteq> None)]\<rparr>"
  by (simp_all add: model_call_def emit_def)

lemma eval_loop_mode:
  assumes "aggr s = Add" and "eval_loop nt nl bs s A F = (r, s')"
  shows "\<exists>t. trace s' = trace s @ t \<and> list_all (mode_kept Add) t \<and> aggr s' = Add"
  using assms
proof (induction bs arbitrary: s A F)
  case Nil
  then show ?case by simp
next
  case (Cons b bs)
  let ?c = "model_call nt s (data_x b) (edge_index b) (sample_weight nl b)"
  have s1: "aggr (snd ?c) = Add" "trace (snd ?c) = trace s @ [Forward Add (sample_weight nl b \<noteq> None)]"
    using Cons.prems(1) by (simp_all add: model_call_simps)
  show ?case
  proof (cases "score b (fst ?c)")
    case (Inl e)
    then have "s' = snd ?c"
      using Cons.prems(2) by (simp add: case_prod_unfold)
    then show ?thesis using s1 by simp
  next
    case (Inr v)
    then have "eval_loop nt nl bs (snd ?c) (A @ [fst v]) (F @ [snd v]) = (r, s')"
      using Cons.prems(2) by (simp add: case_prod_unfold)
    from Cons.IH[OF s1(1) this] s1(2) show ?thesis by auto
  qed
qed

text \<open>
  C2. Each sampled-mode operation switches the model to sum aggregation right after setting
  the train or eval flag, and every forward pass it then runs is under sum aggregation;
  each full-graph operation switches to mean aggregation and runs its single forward pass
  under it. So \<open>eval_sample\<close> evaluates under the mode \<open>train_sample\<close> trains under, and
  \<open>eval_full\<close> under that of \<open>train_full\<close>.
\<close>

theorem aggregation_modes:
  "(\<exists>t. trace (snd (train_sample nt loader norm_loss s)) = trace s @ ModelTrain # SetAggr Add # t
        \<and> list_all (mode_kept Add) t)
   \<and> aggr (snd (train_sample nt loader norm_loss s)) = Add
   \<and> (\<exists>t. trace (snd (eval_sample nt loader norm_loss s)) = trace s @ ModelEval # SetAggr Add # t
        \<and> list_all (mode_kept Add) t)
   \<and> aggr (snd (eval_sample nt loader norm_loss s)) = Add
   \<and> (\<exists>l. trace (snd (train_full nt d s))
          = trace s @ [ModelTrain, SetAggr Mean, ZeroGrad, Forward Mean False, Backward l, OptStep])
   \<and> aggr (snd (train_full nt d s)) = Mean
   \<and> trace (snd (eval_full nt d s)) = trace s @ [ModelEval, SetAggr Mean, Forward Mean False]
   \<and> aggr (snd (eval_full nt d s)) = Mean"
proof -
  have ts: "(\<exists>t. trace (snd (train_sample nt loader norm_loss s))
                = trace s @ ModelTrain # SetAggr Add # t \<and> list_all (mode_kept Add) t)
            \<and> aggr (snd (train_sample nt loader norm_loss s)) = Add"
  proof -
    let ?s3 = "(set_aggr Add (model_train s))\<lparr>passes := Suc (passes s)\<rparr>"
    obtain s4 tot te where loop:
      "train_loop nt norm_loss (loader (passes s)) (?s3, Fin 0, 0) = (s4, tot, te)"
      by (cases "train_loop nt norm_loss (loader (passes s)) (?s3, Fin 0, 0)") auto
    have pre: "aggr ?s3 = Add" "training ?s3 = True"
      "trace ?s3 = trace s @ [ModelTrain, SetAggr Add]"
      by (simp_all add: set_aggr_def model_train_def emit_def)
    have snd_eq: "snd (train_sample nt loader norm_loss s) = s4"
      using loop by (simp add: train_sample_def Let_def set_aggr_def model_train_def emit_def)
    from train_loop_mode[OF pre(1) pre(2) loop] show ?thesis
      unfolding snd_eq pre(3) by auto
  qed
  have es: "(\<exists>t. trace (snd (eval_sample nt loader norm_loss s))
                = trace s @ ModelEval # SetAggr Add # t \<and> list_all (mode_kept Add) t)
            \<and> aggr (snd (eval_sample nt loader norm_loss s)) = Add"
  proof -
    let ?s3 = "(set_aggr Add (model_eval s))\<lparr>passes := Suc (passes s)\<rparr>"
    obtain r s4 where loop: "eval_loop nt norm_loss (loader (passes s)) ?s3 [] [] = (r, s4)"
      by (cases "eval_loop nt norm_loss (loader (passes s)) ?s3 [] []") auto
    have pre: "aggr ?s3 = Add" "trace ?s3 = trace s @ [ModelEval, SetAggr Add]"
      by (simp_all add: set_aggr_def model_eval_def emit_def)
    have snd_eq: "snd (eval_sample nt loader norm_loss s) = s4"
      using loop
      by (simp add: eval_sample_def Let_def set_aggr_def model_eval_def emit_def
            split: sum.splits prod.splits)
    from eval_loop_mode[OF pre(1) loop] show ?thesis
      unfolding snd_eq pre(2) by auto
  qed
  have tf: "(\<exists>l. trace (snd (train_full nt d s))
          = trace s @ [ModelTrain, SetAggr Mean, ZeroGrad, Forward Mean False, Backward l, OptStep])
       \<and> aggr (snd (train_full nt d s)) = Mean"
    by (simp add: train_full_def Let_def set_aggr_def model_train_def emit_def model_call_def
          backward_and_step_def)
  have ef: "trace (snd (eval_full nt d s)) = trace s @ [ModelEval, SetAggr Mean, Forward Mean False]
       \<and> aggr (snd (eval_full nt d s)) = Mean"
    by (simp add: eval_full_def Let_def set_aggr_def model_eval_def emit_def model_call_def)
  from ts es tf ef show ?thesis by blast
qed

section \<open>Accuracy and macro-F1 of one prediction\<close>

lemma bool_sum_zero_iff: "bool_sum m = 0 \<longleftrightarrow> empty_mask m"
  by (auto simp: bool_sum_def empty_mask_def filter_empty_conv)

lemma bool_sum_card: "bool_sum m = card (masked_nodes m (length m))"
proof -
  have "mask_select m m = filter (\<lambda>b. b) m"
    by (induction m) (simp_all add: mask_select_def)
  then have "bool_sum m = length (mask_select m m)"
    by (simp add: bool_sum_def)
  then show ?thesis
    using length_mask_select[of m m] by (simp add: masked_nodes_def)
qed

lemma bool_sum_mask_select:
  assumes "length m = length c"
  shows "bool_sum (mask_select c m) = card {i \<in> masked_nodes m (length c). c ! i}"
proof -
  have "bool_sum (mask_select c m) = length (filter ((!) c) (filter ((!) m) [0..<length c]))"
    using assms by (simp add: bool_sum_def mask_select_nth filter_map comp_def)
  also have "\<dots> = card (set (filter ((!) c) (filter ((!) m) [0..<length c])))"
    by (rule distinct_card[symmetric]) simp
  also have "set (filter ((!) c) (filter ((!) m) [0..<length c]))
      = {i \<in> masked_nodes m (length c). c ! i}"
    by (auto simp: masked_nodes_def)
  finally show ?thesis .
qed

lemma accs_loop_cases:
  "accs_loop correct ms accs =
     (if list_ex empty_mask ms then Inl ZeroDivisionError
      else Inr (accs @ map (\<lambda>m. real (bool_sum (mask_select correct m)) / real (bool_sum m)) ms))"
  by (induction ms arbitrary: accs) (simp_all add: int_div_def bool_sum_zero_iff)

lemma f1_loop_map:
  "f1_loop ys pred ms f1s = f1s @ map (\<lambda>m. f1_score (mask_select ys m) (mask_select pred m)) ms"
  by (induction ms arbitrary: f1s) simp_all

lemma code_accuracy:
  assumes "length pred = length ys" "length m = length ys"
  shows "real (bool_sum (mask_select (tensor_eq pred ys) m)) / real (bool_sum m)
       = accuracy pred ys m"
proof -
  have lc: "length (tensor_eq pred ys) = length ys"
    using assms by (simp add: tensor_eq_def)
  have "{i \<in> masked_nodes m (length ys). tensor_eq pred ys ! i}
      = {i \<in> masked_nodes m (length ys). pred ! i = ys ! i}"
    using assms by (auto simp: masked_nodes_def tensor_eq_def)
  then show ?thesis
    using bool_sum_mask_select[of m "tensor_eq pred ys"] bool_sum_card[of m] assms
    by (simp add: accuracy_def lc)
qed

text \<open>The scoring step raises exactly when one of the three masks selects no node.\<close>

lemma score_raises:
  "has_empty_mask d \<Longrightarrow> score d out = Inl ZeroDivisionError"
  by (simp add: score_def Let_def accs_loop_cases has_empty_mask_def)

lemma score_returns:
  "\<not> has_empty_mask d \<Longrightarrow> \<exists>v. score d out = Inr v"
  by (simp add: score_def Let_def accs_loop_cases has_empty_mask_def)

lemma score_eq:
  assumes "wf_data d" "length out = num_nodes d" "\<not> has_empty_mask d"
  shows "score d out = Inr (accuracies (argmax out) d, macro_f1s (argmax out) d)"
proof -
  have lp: "length (argmax out) = length (data_y d)"
    using assms(1,2) by (simp add: argmax_def wf_data_def)
  have lm: "\<forall>m\<in>set (masks d). length m = length (data_y d)"
    using assms(1) by (simp add: masks_def wf_data_def)
  have "map (\<lambda>m. real (bool_sum (mask_select (tensor_eq (argmax out) (data_y d)) m))
                  / real (bool_sum m)) (masks d)
      = map (accuracy (argmax out) (data_y d)) (masks d)"
    by (rule map_cong[OF refl]) (simp add: code_accuracy lp lm)
  then show ?thesis
    using assms(3)
    by (simp add: score_def Let_def accs_loop_cases has_empty_mask_def f1_loop_map
          accuracies_def macro_f1s_def macro_f1_def)
qed

section \<open>Sampled evaluation\<close>

lemma eval_loop_raises:
  "list_ex has_empty_mask bs \<Longrightarrow> fst (eval_loop nt nl bs s A F) = Inl ZeroDivisionError"
proof (induction bs arbitrary: s A F)
  case Nil
  then show ?case by simp
next
  case (Cons b bs)
  let ?c = "model_call nt s (data_x b) (edge_index b) (sample_weight nl b)"
  show ?case
  proof (cases "has_empty_mask b")
    case True
    then show ?thesis
      by (simp add: case_prod_unfold score_raises)
  next
    case False
    then obtain v where v: "score b (fst ?c) = Inr v"
      using score_returns by blast
    from False Cons.prems have "list_ex has_empty_mask bs" by simp
    from Cons.IH[OF this] show ?thesis
      by (simp add: case_prod_unfold v)
  qed
qed

lemma eval_loop_eq:
  assumes "wf_net nt" "list_all wf_data bs" "\<not> list_ex has_empty_mask bs"
    and "params s = p" "training s = False" "aggr s = Add"
  shows "fst (eval_loop nt nl bs s A F)
       = Inr (A @ map (\<lambda>b. accuracies (batch_pred nt p nl b) b) bs,
              F @ map (\<lambda>b. macro_f1s (batch_pred nt p nl b) b) bs)"
  using assms
proof (induction bs arbitrary: s A F)
  case Nil
  then show ?case by simp
next
  case (Cons b bs)
  let ?c = "model_call nt s (data_x b) (edge_index b) (sample_weight nl b)"
  let ?out = "forward nt p False Add (data_x b) (edge_index b) (sample_weight nl b)"
  have out: "fst ?c = ?out"
    using Cons.prems(4,5,6) by (simp add: model_call_simps)
  have len: "length ?out = num_nodes b"
    using Cons.prems(1) by (simp add: wf_net_def num_nodes_def)
  have wfb: "wf_data b" and ne: "\<not> has_empty_mask b"
    using Cons.prems(2,3) by simp_all
  have sc: "score b (fst ?c) = Inr (accuracies (batch_pred nt p nl b) b,
      macro_f1s (batch_pred nt p nl b) b)"
    unfolding out using score_eq[OF wfb len ne] by (simp add: batch_pred_def)
  have s1: "params (snd ?c) = p" "training (snd ?c) = False" "aggr (snd ?c) = Add"
    using Cons.prems(4,5,6) by (simp_all add: model_call_simps)
  have rest: "list_all wf_data bs" "\<not> list_ex has_empty_mask bs"
    using Cons.prems(2,3) by simp_all
  show ?case
    using Cons.IH[OF Cons.prems(1) rest s1]
    by (simp add: case_prod_unfold sc)
qed

lemma eval_loop_returns:
  "\<not> list_ex has_empty_mask bs \<Longrightarrow>
   \<exists>A' F'. fst (eval_loop nt nl bs s A F) = Inr (A @ A', F @ F')
      \<and> length A' = length bs \<and> length F' = length bs"
proof (induction bs arbitrary: s A F)
  case Nil
  then show ?case by simp
next
  case (Cons b bs)
  let ?c = "model_call nt s (data_x b) (edge_index b) (sample_weight nl b)"
  from Cons.prems have ne: "\<not> has_empty_mask b" and rest: "\<not> list_ex has_empty_mask bs"
    by simp_all
  obtain ab fb where v: "score b (fst ?c) = Inr (ab, fb)"
    using score_returns[OF ne] by fastforce
  from Cons.IH[OF rest, of "snd ?c" "A @ [ab]" "F @ [fb]"]
  obtain A' F' where r: "fst (eval_loop nt nl bs (snd ?c) (A @ [ab]) (F @ [fb]))
      = Inr ((A @ [ab]) @ A', (F @ [fb]) @ F')" "length A' = length bs" "length F' = length bs"
    by blast
  have "fst (eval_loop nt nl (b # bs) s A F) = Inr (A @ (ab # A'), F @ (fb # F'))"
    using r(1) by (simp add: case_prod_unfold v)
  then show ?case
    using r(2,3) by (intro exI[of _ "ab # A'"] exI[of _ "fb # F'"]) simp
qed

lemma means_loop_cases:
  "means_loop A F [0, 1, 2] [] [] =
     (if A = [] \<or> F = [] then Inl IndexError
      else Inr (map (\<lambda>i. np_mean (column A i)) [0, 1, 2], map (\<lambda>i. np_mean (column F i)) [0, 1, 2]))"
  by (simp add: column_mean_def)

lemma eval_sample_fst:
  "fst (eval_sample nt loader nl s) =
     (case fst (eval_loop nt nl (loader (passes s))
                 ((set_aggr Add (model_eval s))\<lparr>passes := Suc (passes s)\<rparr>) [] []) of
        Inl e \<Rightarrow> Inl e
      | Inr (A, F) \<Rightarrow> means_loop A F [0, 1, 2] [] [])"
  by (simp add: eval_sample_def Let_def set_aggr_def model_eval_def emit_def
        split: prod.splits sum.splits)

lemma np_mean_column:
  "np_mean (column (map r bs) k) = mean_over bs (\<lambda>b. r b ! k)"
  by (simp add: np_mean_def column_def mean_over_def comp_def)

lemma nth_accuracies: "k < 3 \<Longrightarrow> accuracies pred d ! k = accuracy pred (data_y d) (masks d ! k)"
  unfolding accuracies_def by (rule nth_map) (simp add: masks_def)

lemma nth_macro_f1s: "k < 3 \<Longrightarrow> macro_f1s pred d ! k = macro_f1 pred (data_y d) (masks d ! k)"
  unfolding macro_f1s_def by (rule nth_map) (simp add: masks_def)

text \<open>
  C3, amended. On a pass that has at least one batch, every batch with at least one node in
  each of the three masks, \<open>eval_sample\<close> returns for each mask the arithmetic mean over
  the batches of the per-batch accuracy, and likewise of the per-batch macro-F1. On a pass
  with a batch one of whose masks selects no node it raises ZeroDivisionError, and on an
  empty pass it raises IndexError.
\<close>

theorem eval_sample_means:
  assumes "wf_net nt" and "list_all wf_data (loader (passes s))"
  shows "fst (eval_sample nt loader norm_loss s) =
     (if list_ex has_empty_mask (loader (passes s)) then Inl ZeroDivisionError
      else if loader (passes s) = [] then Inl IndexError
      else Inr (map (\<lambda>k. mean_over (loader (passes s))
                     (\<lambda>b. accuracy (batch_pred nt (params s) norm_loss b) (data_y b) (masks b ! k)))
                  [0, 1, 2],
                map (\<lambda>k. mean_over (loader (passes s))
                     (\<lambda>b. macro_f1 (batch_pred nt (params s) norm_loss b) (data_y b) (masks b ! k)))
                  [0, 1, 2]))"
proof (cases "list_ex has_empty_mask (loader (passes s))")
  case True
  then show ?thesis
    by (simp add: eval_sample_fst eval_loop_raises)
next
  case False
  let ?s3 = "(set_aggr Add (model_eval s))\<lparr>passes := Suc (passes s)\<rparr>"
  have pre: "params ?s3 = params s" "training ?s3 = False" "aggr ?s3 = Add"
    by (simp_all add: set_aggr_def model_eval_def emit_def)
  have loop: "fst (eval_loop nt norm_loss (loader (passes s)) ?s3 [] [])
      = Inr ([] @ map (\<lambda>b. accuracies (batch_pred nt (params s) norm_loss b) b) (loader (passes s)),
             [] @ map (\<lambda>b. macro_f1s (batch_pred nt (params s) norm_loss b) b) (loader (passes s)))"
    by (rule eval_loop_eq[OF assms(1) assms(2) False pre])
  let ?A = "map (\<lambda>b. accuracies (batch_pred nt (params s) norm_loss b) b) (loader (passes s))"
  let ?F = "map (\<lambda>b. macro_f1s (batch_pred nt (params s) norm_loss b) b) (loader (passes s))"
  have ml: "fst (eval_sample nt loader norm_loss s) = means_loop ?A ?F [0, 1, 2] [] []"
    by (simp only: eval_sample_fst loop sum.case prod.case append_Nil)
  have ca: "map (\<lambda>i. np_mean (column ?A i)) [0, 1, 2]
      = map (\<lambda>k. mean_over (loader (passes s))
           (\<lambda>b. accuracy (batch_pred nt (params s) norm_loss b) (data_y b) (masks b ! k))) [0, 1, 2]"
    by (rule map_cong[OF refl]) (auto simp: np_mean_column nth_accuracies)
  have cf: "map (\<lambda>i. np_mean (column ?F i)) [0, 1, 2]
      = map (\<lambda>k. mean_over (loader (passes s))
           (\<lambda>b. macro_f1 (batch_pred nt (params s) norm_loss b) (data_y b) (masks b ! k))) [0, 1, 2]"
    by (rule map_cong[OF refl]) (auto simp: np_mean_column nth_macro_f1s)
  have emp: "?A = [] \<or> ?F = [] \<longleftrightarrow> loader (passes s) = []"
    by simp
  show ?thesis
    unfolding ml means_loop_cases ca cf emp using False by simp
qed

lemmas ex_defs = ex_data_def ex_graph_def ex_batch_def ex_net_def ex_state_def ex_loader_def
  ex_empty_loader_def ex_batch_no_test_def ex_loader_no_test_def ex_graph_no_test_def

lemmas op_defs = set_aggr_def model_train_def model_eval_def emit_def model_call_def
  backward_and_step_def sample_weight_def sample_loss_def nll_loss_none_def tmul_def
  mask_select_def num_nodes_def score_def masks_def tensor_eq_def argmax_def argmax_list_def
  bool_sum_def int_div_def f1_score_def class_f1_def unique_labels_def column_mean_def
  column_def np_mean_def tmean_def full_loss_def

theorem eval_sample_means_witness:
  "wf_net ex_net \<and> list_all wf_data (ex_loader (passes ex_state))
   \<and> fst (eval_sample ex_net ex_loader 1 ex_state)
     = Inr (map (\<lambda>k. mean_over (ex_loader (passes ex_state))
                   (\<lambda>b. accuracy (batch_pred ex_net (params ex_state) 1 b) (data_y b) (masks b ! k)))
              [0, 1, 2],
            map (\<lambda>k. mean_over (ex_loader (passes ex_state))
                   (\<lambda>b. macro_f1 (batch_pred ex_net (params ex_state) 1 b) (data_y b) (masks b ! k)))
              [0, 1, 2])
   \<and> fst (eval_sample ex_net ex_loader 1 ex_state) = Inr ([0, 1, 0], [0, 1, 0])"
proof -
  have h1: "wf_net ex_net"
    by (simp add: wf_net_def ex_net_def)
  have h2: "list_all wf_data (ex_loader (passes ex_state))"
    by (simp add: wf_data_def num_nodes_def ex_loader_def ex_batch_def)
  have ne: "\<not> list_ex has_empty_mask (ex_loader (passes ex_state))"
    by (simp add: has_empty_mask_def empty_mask_def masks_def ex_loader_def ex_batch_def)
  have nn: "ex_loader (passes ex_state) \<noteq> []"
    by (simp add: ex_loader_def)
  have ev: "fst (eval_sample ex_net ex_loader 1 ex_state) = Inr ([0, 1, 0], [0, 1, 0])"
    by (simp add: eval_sample_def Let_def op_defs ex_defs)
  show ?thesis
    using eval_sample_means[where nt = ex_net and loader = ex_loader and s = ex_state
        and norm_loss = 1, OF h1 h2] h1 h2 ne nn ev
    by simp
qed

theorem eval_sample_empty_pass_counterexample:
  "fst (eval_sample ex_net ex_empty_loader 1 ex_state) = Inl IndexError"
  by (simp add: eval_sample_def Let_def op_defs ex_defs)

section \<open>Unchecked preconditions of the sampled operations\<close>

lemma train_batch_examples:
  "snd (snd (train_batch nt nl b (s, tot, te))) = te + num_nodes b"
  by (simp add: Let_def case_prod_unfold)

lemma train_loop_examples:
  "snd (snd (train_loop nt nl bs acc)) = snd (snd acc) + sum_list (map num_nodes bs)"
proof (induction bs arbitrary: acc)
  case Nil
  then show ?case by simp
next
  case (Cons b bs)
  obtain s tot te where acc: "acc = (s, tot, te)"
    by (cases acc) auto
  show ?case
    using Cons.IH[of "train_batch nt nl b acc"] train_batch_examples[of nt nl b s tot te]
    by (simp add: acc)
qed

lemma train_sample_fst:
  "fst (train_sample nt loader nl s) = Inl ZeroDivisionError
     \<longleftrightarrow> sum_list (map num_nodes (loader (passes s))) = 0"
proof -
  let ?s3 = "(set_aggr Add (model_train s))\<lparr>passes := Suc (passes s)\<rparr>"
  let ?r = "train_loop nt nl (loader (passes s)) (?s3, Fin 0, 0)"
  have te: "snd (snd ?r) = sum_list (map num_nodes (loader (passes s)))"
    using train_loop_examples[of nt nl "loader (passes s)" "(?s3, Fin 0, 0)"] by simp
  have "fst (train_sample nt loader nl s)
      = (if snd (snd ?r) = 0 then Inl ZeroDivisionError
         else Inr (fdiv (fst (snd ?r)) (snd (snd ?r))))"
    by (simp add: train_sample_def Let_def case_prod_unfold set_aggr_def model_train_def emit_def)
  then show ?thesis
    unfolding te by simp
qed

lemma train_sample_returns:
  "sum_list (map num_nodes (loader (passes s))) \<noteq> 0 \<Longrightarrow>
     \<exists>l. fst (train_sample nt loader nl s) = Inr l"
proof -
  let ?s3 = "(set_aggr Add (model_train s))\<lparr>passes := Suc (passes s)\<rparr>"
  let ?r = "train_loop nt nl (loader (passes s)) (?s3, Fin 0, 0)"
  assume ne: "sum_list (map num_nodes (loader (passes s))) \<noteq> 0"
  have te: "snd (snd ?r) = sum_list (map num_nodes (loader (passes s)))"
    using train_loop_examples[of nt nl "loader (passes s)" "(?s3, Fin 0, 0)"] by simp
  have "fst (train_sample nt loader nl s)
      = (if snd (snd ?r) = 0 then Inl ZeroDivisionError
         else Inr (fdiv (fst (snd ?r)) (snd (snd ?r))))"
    by (simp add: train_sample_def Let_def case_prod_unfold set_aggr_def model_train_def emit_def)
  then show ?thesis
    unfolding te using ne by simp
qed

lemma nonempty_mask_nodes:
  assumes "wf_data d" "\<not> has_empty_mask d"
  shows "0 < num_nodes d"
proof -
  have "True \<in> set (train_mask d)"
    using assms(2) by (simp add: has_empty_mask_def masks_def empty_mask_def)
  then have ne: "train_mask d \<noteq> []" by auto
  have "length (train_mask d) = num_nodes d"
    using assms(1) by (simp add: wf_data_def)
  with ne show ?thesis
    by (metis length_greater_0_conv)
qed

lemma eval_sample_returns:
  assumes "loader (passes s) \<noteq> []" "\<not> list_ex has_empty_mask (loader (passes s))"
  shows "\<exists>r. fst (eval_sample nt loader nl s) = Inr r"
proof -
  let ?s3 = "(set_aggr Add (model_eval s))\<lparr>passes := Suc (passes s)\<rparr>"
  obtain A F where r: "fst (eval_loop nt nl (loader (passes s)) ?s3 [] []) = Inr ([] @ A, [] @ F)"
    "length A = length (loader (passes s))" "length F = length (loader (passes s))"
    using eval_loop_returns[OF assms(2), of nt nl ?s3 "[]" "[]"] by blast
  have ne: "A \<noteq> []" "F \<noteq> []"
    using r(2,3) assms(1) by auto
  have "fst (eval_sample nt loader nl s) = means_loop A F [0, 1, 2] [] []"
    by (simp only: eval_sample_fst r(1) sum.case prod.case append_Nil)
  then show ?thesis
    unfolding means_loop_cases using ne by simp
qed

text \<open>
  C9. \<open>train_sample\<close> raises ZeroDivisionError on a pass without batches; \<open>eval_sample\<close>
  raises ZeroDivisionError on a pass with a batch one of whose three masks selects no
  node, and IndexError on a pass without batches. On a pass with at least one batch, every
  batch having at least one node in each mask, both return a value.
\<close>

theorem sampled_preconditions:
  "(loader (passes s) = [] \<longrightarrow> fst (train_sample nt loader norm_loss s) = Inl ZeroDivisionError)
   \<and> (list_ex has_empty_mask (loader (passes s)) \<longrightarrow>
        fst (eval_sample nt loader norm_loss s) = Inl ZeroDivisionError)
   \<and> (loader (passes s) = [] \<longrightarrow> fst (eval_sample nt loader norm_loss s) = Inl IndexError)
   \<and> (loader (passes s) \<noteq> [] \<and> list_all wf_data (loader (passes s))
        \<and> \<not> list_ex has_empty_mask (loader (passes s)) \<longrightarrow>
        (\<exists>l. fst (train_sample nt loader norm_loss s) = Inr l)
        \<and> (\<exists>r. fst (eval_sample nt loader norm_loss s) = Inr r))"
proof (intro conjI impI)
  assume "loader (passes s) = []"
  then show "fst (train_sample nt loader norm_loss s) = Inl ZeroDivisionError"
    by (simp add: train_sample_fst)
next
  assume "list_ex has_empty_mask (loader (passes s))"
  then show "fst (eval_sample nt loader norm_loss s) = Inl ZeroDivisionError"
    by (simp add: eval_sample_fst eval_loop_raises)
next
  assume "loader (passes s) = []"
  then show "fst (eval_sample nt loader norm_loss s) = Inl IndexError"
    by (simp add: eval_sample_fst column_mean_def)
next
  assume a: "loader (passes s) \<noteq> [] \<and> list_all wf_data (loader (passes s))
        \<and> \<not> list_ex has_empty_mask (loader (passes s))"
  then obtain b bs where bs: "loader (passes s) = b # bs"
    by (cases "loader (passes s)") auto
  have "0 < num_nodes b"
    using a bs nonempty_mask_nodes[of b] by simp
  then have "sum_list (map num_nodes (loader (passes s))) \<noteq> 0"
    by (simp add: bs)
  then show "\<exists>l. fst (train_sample nt loader norm_loss s) = Inr l"
    by (rule train_sample_returns)
next
  assume a: "loader (passes s) \<noteq> [] \<and> list_all wf_data (loader (passes s))
        \<and> \<not> list_ex has_empty_mask (loader (passes s))"
  then show "\<exists>r. fst (eval_sample nt loader norm_loss s) = Inr r"
    using eval_sample_returns by blast
qed

theorem sampled_preconditions_witness:
  "ex_empty_loader (passes ex_state) = []
   \<and> fst (train_sample ex_net ex_empty_loader 1 ex_state) = Inl ZeroDivisionError
   \<and> fst (eval_sample ex_net ex_empty_loader 1 ex_state) = Inl IndexError
   \<and> list_ex has_empty_mask (ex_loader_no_test (passes ex_state))
   \<and> fst (eval_sample ex_net ex_loader_no_test 1 ex_state) = Inl ZeroDivisionError
   \<and> ex_loader (passes ex_state) \<noteq> [] \<and> list_all wf_data (ex_loader (passes ex_state))
   \<and> \<not> list_ex has_empty_mask (ex_loader (passes ex_state))
   \<and> (\<exists>l. fst (train_sample ex_net ex_loader 1 ex_state) = Inr l)
   \<and> (\<exists>r. fst (eval_sample ex_net ex_loader 1 ex_state) = Inr r)"
proof -
  have e: "ex_empty_loader (passes ex_state) = []"
    by (simp add: ex_empty_loader_def)
  have m: "list_ex has_empty_mask (ex_loader_no_test (passes ex_state))"
    by (simp add: has_empty_mask_def empty_mask_def masks_def ex_loader_no_test_def
          ex_batch_no_test_def ex_batch_def)
  have g: "ex_loader (passes ex_state) \<noteq> [] \<and> list_all wf_data (ex_loader (passes ex_state))
      \<and> \<not> list_ex has_empty_mask (ex_loader (passes ex_state))"
    by (simp add: has_empty_mask_def empty_mask_def masks_def wf_data_def num_nodes_def
          ex_loader_def ex_batch_def)
  show ?thesis
    using e m g
      sampled_preconditions[where loader = ex_empty_loader and s = ex_state and nt = ex_net
        and norm_loss = 1]
      sampled_preconditions[where loader = ex_loader_no_test and s = ex_state and nt = ex_net
        and norm_loss = 1]
      sampled_preconditions[where loader = ex_loader and s = ex_state and nt = ex_net
        and norm_loss = 1]
    by blast
qed

section \<open>Perfect predictions on the full graph\<close>

lemma class_f1_same:
  assumes "c \<in> set ys"
  shows "class_f1 ys ys c = 1"
proof -
  have z: "zip ys ys = map (\<lambda>v. (v, v)) ys"
    by (induction ys) simp_all
  have tp: "length (filter (\<lambda>(t, p). t = c \<and> p = c) (zip ys ys)) = length (filter (\<lambda>v. v = c) ys)"
    unfolding z by (simp add: filter_map comp_def)
  have fp: "filter (\<lambda>(t, p). t \<noteq> c \<and> p = c) (zip ys ys) = []"
    unfolding z by (simp add: filter_map comp_def)
  have fn: "filter (\<lambda>(t, p). t = c \<and> p \<noteq> c) (zip ys ys) = []"
    unfolding z by (simp add: filter_map comp_def)
  have "filter (\<lambda>v. v = c) ys \<noteq> []"
    using assms by (auto simp: filter_empty_conv)
  then have pos: "0 < length (filter (\<lambda>v. v = c) ys)"
    by (metis length_greater_0_conv)
  show ?thesis
    unfolding class_f1_def Let_def tp fp fn using pos by simp
qed

lemma sum_list_ones:
  "(\<forall>v\<in>set xs. f v = (1::real)) \<Longrightarrow> sum_list (map f xs) = real (length xs)"
  by (induction xs) simp_all

lemma f1_score_same:
  assumes "ys \<noteq> []"
  shows "f1_score ys ys = 1"
proof -
  let ?ls = "unique_labels ys ys"
  have set_ls: "set ?ls = set ys"
    by (simp add: unique_labels_def)
  have ne: "?ls \<noteq> []"
    using assms set_ls by (metis set_empty)
  have "sum_list (map (class_f1 ys ys) ?ls) = real (length ?ls)"
    by (rule sum_list_ones) (simp add: set_ls class_f1_same)
  then show ?thesis
    using ne by (simp add: f1_score_def Let_def)
qed

lemma mask_select_agree:
  assumes "length pred = length ys" "length m = length ys"
    and "\<forall>i\<in>masked_nodes m (length ys). pred ! i = ys ! i"
  shows "mask_select pred m = mask_select ys m"
proof -
  have "map ((!) pred) (filter ((!) m) [0..<length ys])
      = map ((!) ys) (filter ((!) m) [0..<length ys])"
    using assms(3) by (intro map_cong[OF refl]) (simp add: masked_nodes_def)
  then show ?thesis
    using assms(1,2) by (simp add: mask_select_nth)
qed

lemma masked_nodes_nonempty:
  assumes "\<not> empty_mask m"
  shows "masked_nodes m (length m) \<noteq> {}"
proof -
  from assms obtain i where "i < length m" "m ! i"
    by (auto simp: empty_mask_def in_set_conv_nth)
  then show ?thesis
    by (auto simp: masked_nodes_def)
qed

lemma accuracy_perfect:
  assumes "length m = length ys" "\<not> empty_mask m"
    and "\<forall>i\<in>masked_nodes m (length ys). pred ! i = ys ! i"
  shows "accuracy pred ys m = 1"
proof -
  have eq: "{i \<in> masked_nodes m (length ys). pred ! i = ys ! i} = masked_nodes m (length ys)"
    using assms(3) by auto
  have "finite (masked_nodes m (length ys))"
    by (simp add: masked_nodes_def)
  then have "card (masked_nodes m (length ys)) \<noteq> 0"
    using masked_nodes_nonempty[OF assms(2)] assms(1) by simp
  then show ?thesis
    by (simp add: accuracy_def eq)
qed

lemma macro_f1_perfect:
  assumes "length pred = length ys" "length m = length ys" "\<not> empty_mask m"
    and "\<forall>i\<in>masked_nodes m (length ys). pred ! i = ys ! i"
  shows "macro_f1 pred ys m = 1"
proof -
  have "mask_select ys m \<noteq> []"
    using mask_select_empty_iff[of m ys] masked_nodes_nonempty[OF assms(3)] assms(2) by simp
  then show ?thesis
    by (simp add: macro_f1_def mask_select_agree[OF assms(1,2,4)] f1_score_same)
qed

lemma eval_full_fst:
  "fst (eval_full nt d s)
     = score d (forward nt (params s) False Mean (data_x d) (edge_index d) None)"
  by (simp add: eval_full_def Let_def model_call_def set_aggr_def model_eval_def emit_def)

text \<open>
  C7, amended. On a graph whose three masks each select at least one node, if the predicted
  labels of \<open>eval_full\<close> equal the true labels at every node of one of the masks, the
  accuracy returned for that mask is 1 and the macro-F1 returned for it is 1. If one of the
  three masks selects no node, \<open>eval_full\<close> raises ZeroDivisionError.
\<close>

theorem eval_full_perfect:
  assumes "wf_net nt" and "wf_data d" and "k < 3"
    and "\<forall>i\<in>masked_nodes (masks d ! k) (num_nodes d).
           argmax (forward nt (params s) False Mean (data_x d) (edge_index d) None) ! i
             = data_y d ! i"
  shows "if has_empty_mask d then fst (eval_full nt d s) = Inl ZeroDivisionError
         else (\<exists>accs f1_scores. fst (eval_full nt d s) = Inr (accs, f1_scores)
                 \<and> accs ! k = 1 \<and> f1_scores ! k = 1)"
proof (cases "has_empty_mask d")
  case True
  then show ?thesis
    by (simp add: eval_full_fst score_raises)
next
  case False
  let ?out = "forward nt (params s) False Mean (data_x d) (edge_index d) None"
  have len: "length ?out = num_nodes d"
    using assms(1) by (simp add: wf_net_def num_nodes_def)
  have ly: "length (data_y d) = num_nodes d"
    using assms(2) by (simp add: wf_data_def)
  have lp: "length (argmax ?out) = length (data_y d)"
    using len ly by (simp add: argmax_def)
  have mk: "masks d ! k \<in> set (masks d)"
    using assms(3) by (intro nth_mem) (simp add: masks_def)
  have lm: "length (masks d ! k) = length (data_y d)"
    using assms(2) mk by (auto simp: wf_data_def masks_def)
  have nem: "\<not> empty_mask (masks d ! k)"
    using False mk by (auto simp: has_empty_mask_def list_ex_iff)
  have agree: "\<forall>i\<in>masked_nodes (masks d ! k) (length (data_y d)).
      argmax ?out ! i = data_y d ! i"
    using assms(4) ly by simp
  have sc: "fst (eval_full nt d s) = Inr (accuracies (argmax ?out) d, macro_f1s (argmax ?out) d)"
    unfolding eval_full_fst by (rule score_eq[OF assms(2) len False])
  have a: "accuracies (argmax ?out) d ! k = 1"
    by (simp add: nth_accuracies[OF assms(3)] accuracy_perfect[OF lm nem agree])
  have f: "macro_f1s (argmax ?out) d ! k = 1"
    by (simp add: nth_macro_f1s[OF assms(3)] macro_f1_perfect[OF lp lm nem agree])
  show ?thesis
    using False sc a f by simp
qed

theorem eval_full_perfect_witness:
  "wf_net ex_net \<and> wf_data ex_graph \<and> (1::nat) < 3
   \<and> masked_nodes (masks ex_graph ! 1) (num_nodes ex_graph) = {1}
   \<and> argmax (forward ex_net (params ex_state) False Mean (data_x ex_graph)
               (edge_index ex_graph) None) ! 1 = data_y ex_graph ! 1
   \<and> \<not> has_empty_mask ex_graph
   \<and> (\<exists>accs f1_scores. fst (eval_full ex_net ex_graph ex_state) = Inr (accs, f1_scores)
         \<and> accs ! 1 = 1 \<and> f1_scores ! 1 = 1)"
proof -
  have h1: "wf_net ex_net"
    by (simp add: wf_net_def ex_net_def)
  have h2: "wf_data ex_graph"
    by (simp add: wf_data_def num_nodes_def ex_graph_def)
  have h3: "(1::nat) < 3" by simp
  have mn: "masked_nodes (masks ex_graph ! 1) (num_nodes ex_graph) = {1}"
    by (auto simp: masked_nodes_def masks_def num_nodes_def ex_graph_def nth_Cons'
          less_Suc_eq numeral_3_eq_3)
  have h4: "\<forall>i\<in>masked_nodes (masks ex_graph ! 1) (num_nodes ex_graph).
         argmax (forward ex_net (params ex_state) False Mean (data_x ex_graph)
                   (edge_index ex_graph) None) ! i = data_y ex_graph ! i"
    unfolding mn
    by (simp add: argmax_def argmax_list_def ex_net_def ex_graph_def ex_state_def)
  have ne: "\<not> has_empty_mask ex_graph"
    by (simp add: has_empty_mask_def empty_mask_def masks_def ex_graph_def)
  have h5: "argmax (forward ex_net (params ex_state) False Mean (data_x ex_graph)
               (edge_index ex_graph) None) ! 1 = data_y ex_graph ! 1"
    using h4 unfolding mn by simp
  have "\<exists>accs f1_scores. fst (eval_full ex_net ex_graph ex_state) = Inr (accs, f1_scores)
         \<and> accs ! 1 = 1 \<and> f1_scores ! 1 = 1"
    using eval_full_perfect[OF h1 h2 h3 h4] ne by simp
  with h1 h2 h3 mn h5 ne show ?thesis
    by blast
qed

theorem eval_full_empty_mask_counterexample:
  "argmax (forward ex_net (params ex_state) False Mean (data_x ex_graph_no_test)
             (edge_index ex_graph_no_test) None) = [1, 1, 1]
   \<and> data_y ex_graph_no_test = [0, 1, 0]
   \<and> val_mask ex_graph_no_test = [False, True, False]
   \<and> fst (eval_full ex_net ex_graph_no_test ex_state) = Inl ZeroDivisionError"
  by (simp add: eval_full_def Let_def set_aggr_def model_eval_def emit_def model_call_def
        score_def masks_def tensor_eq_def argmax_def argmax_list_def mask_select_def
        bool_sum_def int_div_def ex_net_def ex_graph_no_test_def ex_graph_def ex_state_def)

section \<open>The edge attribute\<close>

lemma count_list_in_degree: "count_list (map snd es) v = in_degree es v"
proof -
  have "count_list (map snd es) v = length (filter (\<lambda>e. snd e = v) es)"
    by (induction es) auto
  also have "\<dots> = card {e. e < length es \<and> snd (es ! e) = v}"
    by (rule length_filter_conv_card)
  finally show ?thesis
    by (simp add: in_degree_def)
qed

lemma set_edge_attr_value:
  assumes "list_all (\<lambda>e. snd e < num_nodes d) (edge_index d)"
  shows "set_edge_attr d =
     Inr \<lparr>data_x = data_x d, edge_index = edge_index d, data_y = data_y d,
          train_mask = train_mask d, val_mask = val_mask d, test_mask = test_mask d,
          edge_attr = map (\<lambda>e. 1 / real (in_degree (edge_index d) (snd e))) (edge_index d)\<rparr>"
proof -
  let ?col = "map snd (edge_index d)"
  let ?deg = "map (\<lambda>v. real (count_list ?col v)) [0..<num_nodes d]"
  have inr: "list_all (\<lambda>i. i < num_nodes d) ?col"
    using assms by (simp add: list_all_iff)
  have dg: "degree ?col (num_nodes d) = Inr ?deg"
    using inr by (simp add: degree_def)
  have inr': "list_all (\<lambda>i. i < length ?deg) ?col"
    using inr by simp
  have sel: "index_select ?deg ?col = Inr (map ((!) ?deg) ?col)"
    using inr' by (simp add: index_select_def)
  have val: "map ((!) ?deg) ?col = map (\<lambda>c. real (count_list ?col c)) ?col"
    using inr by (intro map_cong[OF refl]) (auto simp: list_all_iff)
  have ea: "map (\<lambda>v. 1 / v) (map (\<lambda>c. real (count_list ?col c)) ?col)
      = map (\<lambda>e. 1 / real (in_degree (edge_index d) (snd e))) (edge_index d)"
    by (simp add: count_list_in_degree comp_def)
  show ?thesis
    by (simp only: set_edge_attr_def Let_def dg sel val sum.case ea)
qed

text \<open>
  C8. On a loaded graph whose edges point at existing nodes, lines 129 to 131 produce the
  graph that the sampler and the four operations read: its edge attribute holds, for every
  edge, the reciprocal of the in-degree of the edge's target node, and node features, edge
  list, labels and the three masks are those of the loaded graph.
\<close>

theorem edge_attr_in_degree:
  assumes "list_all (\<lambda>e. snd e < num_nodes d) (edge_index d)"
  shows "\<exists>g. set_edge_attr d = Inr g
     \<and> data_x g = data_x d \<and> edge_index g = edge_index d \<and> data_y g = data_y d
     \<and> train_mask g = train_mask d \<and> val_mask g = val_mask d \<and> test_mask g = test_mask d
     \<and> length (edge_attr g) = length (edge_index d)
     \<and> (\<forall>e<length (edge_index d).
           edge_attr g ! e = 1 / real (in_degree (edge_index d) (snd (edge_index d ! e))))"
  unfolding set_edge_attr_value[OF assms] by simp

theorem edge_attr_in_degree_witness:
  "list_all (\<lambda>e. snd e < num_nodes ex_data) (edge_index ex_data)
   \<and> set_edge_attr ex_data = Inr ex_graph
   \<and> (\<exists>g. set_edge_attr ex_data = Inr g
     \<and> data_x g = data_x ex_data \<and> edge_index g = edge_index ex_data
     \<and> data_y g = data_y ex_data \<and> train_mask g = train_mask ex_data
     \<and> val_mask g = val_mask ex_data \<and> test_mask g = test_mask ex_data
     \<and> length (edge_attr g) = length (edge_index ex_data)
     \<and> (\<forall>e<length (edge_index ex_data).
           edge_attr g ! e = 1 / real (in_degree (edge_index ex_data) (snd (edge_index ex_data ! e)))))"
proof -
  have h: "list_all (\<lambda>e. snd e < num_nodes ex_data) (edge_index ex_data)"
    by (simp add: num_nodes_def ex_data_def)
  have ev: "set_edge_attr ex_data = Inr ex_graph"
    by (simp add: set_edge_attr_def Let_def degree_def index_select_def num_nodes_def
          ex_data_def ex_graph_def upt_rec[of 0] upt_rec[of 1] upt_rec[of 2] upt_rec[of 3])
  show ?thesis
    using h ev edge_attr_in_degree[OF h] by blast
qed

section \<open>Errors of the epoch loop and of the summary\<close>

lemma score_error: "score d out = Inl e \<Longrightarrow> e = ZeroDivisionError"
  by (simp add: score_def Let_def accs_loop_cases split: if_splits)

lemma eval_full_error: "fst (eval_full nt d s) = Inl e \<Longrightarrow> e = ZeroDivisionError"
  unfolding eval_full_fst by (rule score_error)

lemma eval_loop_error:
  "fst (eval_loop nt nl bs s A F) = Inl e \<Longrightarrow> e = ZeroDivisionError"
proof (induction bs arbitrary: s A F)
  case Nil
  then show ?case by simp
next
  case (Cons b bs)
  let ?c = "model_call nt s (data_x b) (edge_index b) (sample_weight nl b)"
  show ?case
  proof (cases "score b (fst ?c)")
    case (Inl e')
    then show ?thesis
      using Cons.prems score_error[OF Inl] by (simp add: case_prod_unfold)
  next
    case (Inr v)
    then have "fst (eval_loop nt nl bs (snd ?c) (A @ [fst v]) (F @ [snd v])) = Inl e"
      using Cons.prems by (simp add: case_prod_unfold)
    then show ?thesis by (rule Cons.IH)
  qed
qed

lemma eval_sample_error:
  assumes "fst (eval_sample nt loader nl s) = Inl e"
  shows "e = ZeroDivisionError \<or> e = IndexError"
proof (cases "fst (eval_loop nt nl (loader (passes s))
                 ((set_aggr Add (model_eval s))\<lparr>passes := Suc (passes s)\<rparr>) [] [])")
  case (Inl e')
  then show ?thesis
    using assms eval_loop_error[OF Inl] by (simp add: eval_sample_fst)
next
  case (Inr v)
  obtain A F where v: "v = (A, F)" by (cases v) auto
  have "means_loop A F [0, 1, 2] [] [] = Inl e"
    using assms unfolding eval_sample_fst Inr v by simp
  then show ?thesis
    unfolding means_loop_cases by (simp split: if_splits)
qed

lemma train_sample_error: "fst (train_sample nt loader nl s) = Inl e \<Longrightarrow> e = ZeroDivisionError"
  by (simp add: train_sample_def Let_def case_prod_unfold split: if_splits)

lemma train_full_returns: "\<exists>l. fst (train_full nt d s) = Inr l"
  by (simp add: train_full_def Let_def case_prod_unfold)

lemma epoch_body_error:
  assumes "fst (epoch_body nt loader d a epoch s sm) = Inl e"
  shows "e = ZeroDivisionError \<or> e = IndexError"
proof -
  let ?t = "if train_sample_flag a = 1 then train_sample nt loader (loss_norm a) s
            else train_full nt d s"
  show ?thesis
  proof (cases "fst ?t")
    case (Inl e')
    then have "e' = ZeroDivisionError"
      using train_sample_error[of nt loader "loss_norm a" s e'] train_full_returns[of nt d s]
      by (auto split: if_splits)
    moreover have "e = e'"
      using assms Inl by (simp add: epoch_body_def case_prod_unfold split: if_splits)
    ultimately show ?thesis by simp
  next
    case (Inr l)
    let ?v = "if eval_sample_flag a = 1 then eval_sample nt loader (loss_norm a) (snd ?t)
              else eval_full nt d (snd ?t)"
    show ?thesis
    proof (cases "fst ?v")
      case (Inl e')
      then have "e' = ZeroDivisionError \<or> e' = IndexError"
        using eval_sample_error[of nt loader "loss_norm a" "snd ?t" e']
          eval_full_error[of nt d "snd ?t" e']
        by (auto split: if_splits)
      moreover have "e = e'"
        using assms Inr Inl unfolding epoch_body_def
        by (simp add: case_prod_unfold split: if_splits)
      ultimately show ?thesis by simp
    next
      case (Inr r)
      then show ?thesis
        using assms \<open>fst ?t = Inr l\<close> unfolding epoch_body_def
        by (simp add: case_prod_unfold Let_def split: if_splits)
    qed
  qed
qed

lemma epoch_loop_error:
  "fst (epoch_loop nt loader d a es s sm) = Inl e \<Longrightarrow> e = ZeroDivisionError \<or> e = IndexError"
proof (induction es arbitrary: s sm)
  case Nil
  then show ?case by simp
next
  case (Cons ep es)
  show ?case
  proof (cases "fst (epoch_body nt loader d a ep s sm)")
    case (Inl e')
    then have "e = e'"
      using Cons.prems by (simp add: case_prod_unfold)
    then show ?thesis
      using epoch_body_error[OF Inl] by simp
  next
    case (Inr sm1)
    then have "fst (epoch_loop nt loader d a es (snd (epoch_body nt loader d a ep s sm)) sm1) = Inl e"
      using Cons.prems by (simp add: case_prod_unfold)
    then show ?thesis by (rule Cons.IH)
  qed
qed

lemma report_error: "fst (report sm s) = Inl e \<Longrightarrow> e = ValueError"
  by (simp add: report_def Let_def best_line_def case_prod_unfold split: if_splits)

section \<open>Start-up\<close>

lemma main_unknown_dataset:
  "dataset a \<noteq> ''flickr'' \<Longrightarrow> dataset a \<noteq> ''reddit'' \<Longrightarrow>
     main ev a = (Inl (KeyError ''Dataset name error''), [InfoModelSetting])"
  by (simp add: main_def)

lemma main_unknown_sampler:
  assumes "dataset a = ''flickr'' \<or> dataset a = ''reddit''"
    and "list_all (\<lambda>e. snd e < num_nodes (datasets ev (dataset a)))
           (edge_index (datasets ev (dataset a)))"
    and "sampler a \<noteq> ''rw''" "sampler a \<noteq> ''rn''"
  shows "main ev a = (Inl (KeyError ''Sampler type error''),
                      [InfoModelSetting, InfoDataset (dataset a)])"
  using assms(1,3,4) by (auto simp: main_def Let_def set_edge_attr_value[OF assms(2)])

lemma main_unknown_gcn:
  assumes "dataset a = ''flickr'' \<or> dataset a = ''reddit''"
    and "list_all (\<lambda>e. snd e < num_nodes (datasets ev (dataset a)))
           (edge_index (datasets ev (dataset a)))"
    and "sampler a = ''rw'' \<or> sampler a = ''rn''"
    and "Net_lookup (gcn_type a) = None"
  shows "\<exists>k. main ev a = (Inl TypeError,
            [InfoModelSetting, InfoDataset (dataset a), InfoSampler k, InfoGCNType (gcn_type a)])"
  using assms(1,3,4) by (auto simp: main_def Let_def set_edge_attr_value[OF assms(2)])

lemma set_edge_attr_error: "set_edge_attr d = Inl e \<Longrightarrow> e = RuntimeError \<or> e = IndexError"
  by (auto simp: set_edge_attr_def Let_def degree_def index_select_def split: if_splits)

lemma main_key_errors:
  assumes "fst (main ev a) = Inl (KeyError msg)"
  shows "(dataset a \<noteq> ''flickr'' \<and> dataset a \<noteq> ''reddit'' \<and> msg = ''Dataset name error'')
       \<or> (sampler a \<noteq> ''rw'' \<and> sampler a \<noteq> ''rn'' \<and> msg = ''Sampler type error'')"
proof (cases "dataset a \<noteq> ''flickr'' \<and> dataset a \<noteq> ''reddit''")
  case True
  then show ?thesis
    using assms by (simp add: main_def)
next
  case ds: False
  show ?thesis
  proof (cases "set_edge_attr (datasets ev (dataset a))")
    case (Inl e)
    then show ?thesis
      using assms ds set_edge_attr_error[OF Inl] by (auto simp: main_def Let_def)
  next
    case (Inr g)
    show ?thesis
    proof (cases "sampler a \<noteq> ''rw'' \<and> sampler a \<noteq> ''rn''")
      case True
      then show ?thesis
        using assms ds Inr by (auto simp: main_def Let_def)
    next
      case sm: False
      show ?thesis
      proof (cases "Net_lookup (gcn_type a)")
        case None
        then show ?thesis
          using assms ds Inr sm by (auto simp: main_def Let_def)
      next
        case (Some n)
        let ?k = "if sampler a = ''rw'' then GraphSAINTRandomWalkSampler else MySAINTSampler"
        let ?s0 = "\<lparr>params = new_params ev n (datasets ev (dataset a)), training = True,
                    aggr = new_aggr ev n,
                    trace = [InfoModelSetting, InfoDataset (dataset a), InfoSampler ?k,
                             InfoGCNType (gcn_type a), Construct n],
                    passes = 0\<rparr>"
        let ?sm0 = "\<lparr>summary_accs_train = [], summary_accs_test = [],
                     summary_f1s_train = [], summary_f1s_test = []\<rparr>"
        let ?r = "epoch_loop (nets ev n) (samplers ev ?k g (batch_size a)) g a [1..epochs a] ?s0 ?sm0"
        have m: "fst (main ev a) = (case fst ?r of Inl e \<Rightarrow> Inl e
                                   | Inr sm \<Rightarrow> fst (report sm (snd ?r)))"
          using ds Inr sm Some
          by (auto simp: main_def Let_def case_prod_unfold split: sum.splits)
        show ?thesis
        proof (cases "fst ?r")
          case (Inl e)
          then show ?thesis
            using assms m epoch_loop_error[OF Inl] by auto
        next
          case (Inr sm')
          then have "fst (report sm' (snd ?r)) = Inl (KeyError msg)"
            using assms m by simp
          from report_error[OF this] show ?thesis by simp
        qed
      qed
    qed
  qed
qed

text \<open>
  C5. With a dataset name other than flickr and reddit the script raises KeyError
  \<open>Dataset name error\<close> having logged only its settings; with a recognised dataset
  (whose edges point at existing nodes) and a sampler name other than rw and rn it raises
  KeyError \<open>Sampler type error\<close> having logged only settings and dataset. In both
  cases no model is constructed and no training or evaluation step runs. With recognised
  dataset and sampler names no KeyError is raised.
\<close>

theorem unknown_names_raise:
  "(dataset a \<noteq> ''flickr'' \<and> dataset a \<noteq> ''reddit'' \<longrightarrow>
       main ev a = (Inl (KeyError ''Dataset name error''), [InfoModelSetting]))
   \<and> ((dataset a = ''flickr'' \<or> dataset a = ''reddit'')
       \<and> list_all (\<lambda>e. snd e < num_nodes (datasets ev (dataset a)))
            (edge_index (datasets ev (dataset a)))
       \<and> sampler a \<noteq> ''rw'' \<and> sampler a \<noteq> ''rn'' \<longrightarrow>
       main ev a = (Inl (KeyError ''Sampler type error''),
                    [InfoModelSetting, InfoDataset (dataset a)]))
   \<and> ((dataset a = ''flickr'' \<or> dataset a = ''reddit'')
       \<and> (sampler a = ''rw'' \<or> sampler a = ''rn'') \<longrightarrow>
       (\<forall>msg. fst (main ev a) \<noteq> Inl (KeyError msg)))"
proof (intro conjI impI allI)
  assume "dataset a \<noteq> ''flickr'' \<and> dataset a \<noteq> ''reddit''"
  then show "main ev a = (Inl (KeyError ''Dataset name error''), [InfoModelSetting])"
    by (simp add: main_unknown_dataset)
next
  assume "(dataset a = ''flickr'' \<or> dataset a = ''reddit'')
       \<and> list_all (\<lambda>e. snd e < num_nodes (datasets ev (dataset a)))
            (edge_index (datasets ev (dataset a)))
       \<and> sampler a \<noteq> ''rw'' \<and> sampler a \<noteq> ''rn''"
  then show "main ev a = (Inl (KeyError ''Sampler type error''),
                    [InfoModelSetting, InfoDataset (dataset a)])"
    by (intro main_unknown_sampler) simp_all
next
  fix msg
  assume ok: "(dataset a = ''flickr'' \<or> dataset a = ''reddit'')
       \<and> (sampler a = ''rw'' \<or> sampler a = ''rn'')"
  show "fst (main ev a) \<noteq> Inl (KeyError msg)"
  proof
    assume "fst (main ev a) = Inl (KeyError msg)"
    from main_key_errors[OF this] ok show False by auto
  qed
qed

theorem unknown_names_raise_witness:
  "dataset (ex_args\<lparr>dataset := ''cora''\<rparr>) \<noteq> ''flickr''
   \<and> dataset (ex_args\<lparr>dataset := ''cora''\<rparr>) \<noteq> ''reddit''
   \<and> main ex_env (ex_args\<lparr>dataset := ''cora''\<rparr>)
       = (Inl (KeyError ''Dataset name error''), [InfoModelSetting])
   \<and> dataset (ex_args\<lparr>sampler := ''full''\<rparr>) = ''flickr''
   \<and> list_all (\<lambda>e. snd e < num_nodes (datasets ex_env ''flickr''))
        (edge_index (datasets ex_env ''flickr''))
   \<and> sampler (ex_args\<lparr>sampler := ''full''\<rparr>) \<noteq> ''rw''
   \<and> sampler (ex_args\<lparr>sampler := ''full''\<rparr>) \<noteq> ''rn''
   \<and> main ex_env (ex_args\<lparr>sampler := ''full''\<rparr>)
       = (Inl (KeyError ''Sampler type error''), [InfoModelSetting, InfoDataset ''flickr''])
   \<and> dataset ex_args = ''flickr'' \<and> sampler ex_args = ''rn''
   \<and> (\<forall>msg. fst (main ex_env ex_args) \<noteq> Inl (KeyError msg))"
proof -
  have a: "dataset (ex_args\<lparr>dataset := ''cora''\<rparr>) \<noteq> ''flickr''
      \<and> dataset (ex_args\<lparr>dataset := ''cora''\<rparr>) \<noteq> ''reddit''"
    by simp
  have b: "(dataset (ex_args\<lparr>sampler := ''full''\<rparr>) = ''flickr''
        \<or> dataset (ex_args\<lparr>sampler := ''full''\<rparr>) = ''reddit'')
      \<and> list_all (\<lambda>e. snd e < num_nodes (datasets ex_env (dataset (ex_args\<lparr>sampler := ''full''\<rparr>))))
           (edge_index (datasets ex_env (dataset (ex_args\<lparr>sampler := ''full''\<rparr>))))
      \<and> sampler (ex_args\<lparr>sampler := ''full''\<rparr>) \<noteq> ''rw''
      \<and> sampler (ex_args\<lparr>sampler := ''full''\<rparr>) \<noteq> ''rn''"
    by (simp add: ex_args_def ex_env_def ex_data_def num_nodes_def)
  have c: "(dataset ex_args = ''flickr'' \<or> dataset ex_args = ''reddit'')
      \<and> (sampler ex_args = ''rw'' \<or> sampler ex_args = ''rn'')"
    by (simp add: ex_args_def)
  have d: "dataset (ex_args\<lparr>sampler := ''full''\<rparr>) = ''flickr''" "dataset ex_args = ''flickr''"
    "sampler ex_args = ''rn''"
    by (simp_all add: ex_args_def)
  show ?thesis
    using a b c d
      unknown_names_raise[of "ex_args\<lparr>dataset := ''cora''\<rparr>" ex_env]
      unknown_names_raise[of "ex_args\<lparr>sampler := ''full''\<rparr>" ex_env]
      unknown_names_raise[of ex_args ex_env]
    by simp
qed

text \<open>
  C10. With a GCN type other than sage and gat the dictionary lookup gives None and nothing
  is raised at the lookup: the only KeyErrors of the script are those of the dataset and
  sampler checks, and once these have passed (on a dataset whose edges point at existing
  nodes) the script logs the GCN type and then fails with TypeError at the call that was
  to construct the model.
\<close>

theorem unknown_gcn_type:
  assumes "gcn_type a \<noteq> ''sage''" and "gcn_type a \<noteq> ''gat''"
  shows "Net_lookup (gcn_type a) = None
     \<and> (\<forall>msg. fst (main ev a) = Inl (KeyError msg) \<longrightarrow>
           msg = ''Dataset name error'' \<or> msg = ''Sampler type error'')
     \<and> ((dataset a = ''flickr'' \<or> dataset a = ''reddit'')
         \<and> list_all (\<lambda>e. snd e < num_nodes (datasets ev (dataset a)))
              (edge_index (datasets ev (dataset a)))
         \<and> (sampler a = ''rw'' \<or> sampler a = ''rn'') \<longrightarrow>
         (\<exists>k. main ev a = (Inl TypeError,
                 [InfoModelSetting, InfoDataset (dataset a), InfoSampler k,
                  InfoGCNType (gcn_type a)])))"
proof -
  have none: "Net_lookup (gcn_type a) = None"
    using assms by (simp add: Net_lookup_def)
  have keys: "\<forall>msg. fst (main ev a) = Inl (KeyError msg) \<longrightarrow>
           msg = ''Dataset name error'' \<or> msg = ''Sampler type error''"
    using main_key_errors[of ev a] by blast
  have ty: "(dataset a = ''flickr'' \<or> dataset a = ''reddit'')
         \<and> list_all (\<lambda>e. snd e < num_nodes (datasets ev (dataset a)))
              (edge_index (datasets ev (dataset a)))
         \<and> (sampler a = ''rw'' \<or> sampler a = ''rn'') \<longrightarrow>
         (\<exists>k. main ev a = (Inl TypeError,
                 [InfoModelSetting, InfoDataset (dataset a), InfoSampler k,
                  InfoGCNType (gcn_type a)]))"
    using main_unknown_gcn[of a ev] none by blast
  from none keys ty show ?thesis by blast
qed

theorem unknown_gcn_type_witness:
  "gcn_type (ex_args\<lparr>gcn_type := ''gcn''\<rparr>) \<noteq> ''sage''
   \<and> gcn_type (ex_args\<lparr>gcn_type := ''gcn''\<rparr>) \<noteq> ''gat''
   \<and> Net_lookup ''gcn'' = None
   \<and> dataset (ex_args\<lparr>gcn_type := ''gcn''\<rparr>) = ''flickr''
   \<and> sampler (ex_args\<lparr>gcn_type := ''gcn''\<rparr>) = ''rn''
   \<and> list_all (\<lambda>e. snd e < num_nodes (datasets ex_env ''flickr''))
        (edge_index (datasets ex_env ''flickr''))
   \<and> main ex_env (ex_args\<lparr>gcn_type := ''gcn''\<rparr>)
       = (Inl TypeError, [InfoModelSetting, InfoDataset ''flickr'', InfoSampler MySAINTSampler,
                          InfoGCNType ''gcn''])"
proof -
  have h1: "gcn_type (ex_args\<lparr>gcn_type := ''gcn''\<rparr>) \<noteq> ''sage''"
    and h2: "gcn_type (ex_args\<lparr>gcn_type := ''gcn''\<rparr>) \<noteq> ''gat''"
    by simp_all
  have g: "gcn_type (ex_args\<lparr>gcn_type := ''gcn''\<rparr>) = ''gcn''"
    "dataset (ex_args\<lparr>gcn_type := ''gcn''\<rparr>) = ''flickr''"
    "sampler (ex_args\<lparr>gcn_type := ''gcn''\<rparr>) = ''rn''"
    by (simp_all add: ex_args_def)
  have wf: "list_all (\<lambda>e. snd e < num_nodes (datasets ex_env ''flickr''))
        (edge_index (datasets ex_env ''flickr''))"
    by (simp add: ex_env_def ex_data_def num_nodes_def)
  have ev: "main ex_env (ex_args\<lparr>gcn_type := ''gcn''\<rparr>)
       = (Inl TypeError, [InfoModelSetting, InfoDataset ''flickr'', InfoSampler MySAINTSampler,
                          InfoGCNType ''gcn''])"
    by (simp add: main_def Let_def Net_lookup_def set_edge_attr_value wf g)
  show ?thesis
    using unknown_gcn_type[OF h1 h2, of ex_env] h1 h2 g wf ev by simp
qed

section \<open>The small run, evaluated\<close>

lemma upto_1_2: "[1..2] = [1, 2::int]"
  by (simp add: upto.simps)

lemma ex_edge_attr: "set_edge_attr ex_data = Inr ex_graph"
  by (simp add: set_edge_attr_def Let_def degree_def index_select_def num_nodes_def
        ex_data_def ex_graph_def upt_rec[of 0] upt_rec[of 1] upt_rec[of 2] upt_rec[of 3])

lemma ex_train_step:
  "train_sample ex_net ex_loader 1 \<lparr>params = p, training = t, aggr = m, trace = tr, passes = n\<rparr>
     = (Inr (Fin (5 - 2 * real p)),
        \<lparr>params = Suc p, training = True, aggr = Add,
         trace = tr @ [ModelTrain, SetAggr Add, ZeroGrad, Forward Add True,
                       Backward (Fin (5 - 2 * real p)), OptStep],
         passes = Suc n\<rparr>)"
  by (simp add: train_sample_def Let_def op_defs ex_defs)

lemma ex_eval_step_1:
  "eval_sample ex_net ex_loader 1 \<lparr>params = Suc 0, training = t, aggr = m, trace = tr, passes = n\<rparr>
     = (Inr ([0, 1, 0], [0, 1, 0]),
        \<lparr>params = Suc 0, training = False, aggr = Add,
         trace = tr @ [ModelEval, SetAggr Add, Forward Add True], passes = Suc n\<rparr>)"
  by (simp add: eval_sample_def Let_def op_defs ex_defs)

lemma ex_eval_step_2:
  "eval_sample ex_net ex_loader 1 \<lparr>params = Suc (Suc 0), training = t, aggr = m, trace = tr, passes = n\<rparr>
     = (Inr ([1, 0, 1], [1, 0, 1]),
        \<lparr>params = Suc (Suc 0), training = False, aggr = Add,
         trace = tr @ [ModelEval, SetAggr Add, Forward Add True], passes = Suc n\<rparr>)"
  by (simp add: eval_sample_def Let_def op_defs ex_defs)

lemma ex_epochs:
  "epoch_loop ex_net ex_loader ex_graph ex_args [1, 2]
     \<lparr>params = 0, training = True, aggr = Mean, trace = tr, passes = 0\<rparr>
     \<lparr>summary_accs_train = [], summary_accs_test = [],
      summary_f1s_train = [], summary_f1s_test = []\<rparr>
   = (Inr \<lparr>summary_accs_train = [0, 1], summary_accs_test = [0, 1],
           summary_f1s_train = [0, 1], summary_f1s_test = [0, 1]\<rparr>,
      \<lparr>params = Suc (Suc 0), training = False, aggr = Add,
       trace = tr @
         [ModelTrain, SetAggr Add, ZeroGrad, Forward Add True, Backward (Fin 5), OptStep,
          ModelEval, SetAggr Add, Forward Add True, InfoEpoch 1 (Fin 5) 0 0 0 0,
          ModelTrain, SetAggr Add, ZeroGrad, Forward Add True, Backward (Fin 3), OptStep,
          ModelEval, SetAggr Add, Forward Add True, InfoEpoch 2 (Fin 3) 1 1 1 1],
       passes = Suc (Suc (Suc (Suc 0)))\<rparr>)"
  by (simp add: epoch_body_def ex_args_def ex_train_step ex_eval_step_1 ex_eval_step_2
        emit_def Let_def)

lemma ex_report:
  "report \<lparr>summary_accs_train = [0, 1], summary_accs_test = [0, 1],
           summary_f1s_train = [0, 1], summary_f1s_test = [0, 1]\<rparr>
     \<lparr>params = p, training = t, aggr = m, trace = tr, passes = n\<rparr>
   = (Inr [(''train_acc'', [0, 1]), (''test_acc'', [0, 1]),
           (''train_f1'', [0, 1]), (''test_f1'', [0, 1])],
      \<lparr>params = p, training = t, aggr = m,
       trace = tr @
         [InfoResults, InfoSetting, InfoBestAcc 1 1 1, InfoBestF1 1 1 1,
          Savez [(''train_acc'', [0, 1]), (''test_acc'', [0, 1]),
                 (''train_f1'', [0, 1]), (''test_f1'', [0, 1])],
          InfoSaveSummary, InfoSaveLogs],
       passes = n\<rparr>)"
  by (simp add: report_def best_line_def argmax_list_def emit_def Let_def)

lemma ex_run:
  "main ex_env ex_args =
     (Inr [(''train_acc'', [0, 1]), (''test_acc'', [0, 1]),
           (''train_f1'', [0, 1]), (''test_f1'', [0, 1])],
      [InfoModelSetting, InfoDataset ''flickr'', InfoSampler MySAINTSampler,
       InfoGCNType ''sage'', Construct SAGENet,
       ModelTrain, SetAggr Add, ZeroGrad, Forward Add True, Backward (Fin 5), OptStep,
       ModelEval, SetAggr Add, Forward Add True, InfoEpoch 1 (Fin 5) 0 0 0 0,
       ModelTrain, SetAggr Add, ZeroGrad, Forward Add True, Backward (Fin 3), OptStep,
       ModelEval, SetAggr Add, Forward Add True, InfoEpoch 2 (Fin 3) 1 1 1 1,
       InfoResults, InfoSetting, InfoBestAcc 1 1 1, InfoBestF1 1 1 1,
       Savez [(''train_acc'', [0, 1]), (''test_acc'', [0, 1]),
              (''train_f1'', [0, 1]), (''test_f1'', [0, 1])],
       InfoSaveSummary, InfoSaveLogs])"
proof -
  have a: "dataset ex_args = ''flickr''" "sampler ex_args = ''rn''" "gcn_type ex_args = ''sage''"
    "epochs ex_args = 2" "batch_size ex_args = 1000"
    by (simp_all add: ex_args_def)
  have e: "datasets ex_env ''flickr'' = ex_data" "nets ex_env SAGENet = ex_net"
    "new_params ex_env SAGENet ex_data = 0" "new_aggr ex_env SAGENet = Mean"
    "samplers ex_env MySAINTSampler ex_graph 1000 = ex_loader"
    by (simp_all add: ex_env_def ex_loader_def)
  have n: "Net_lookup ''sage'' = Some SAGENet"
    by (simp add: Net_lookup_def)
  show ?thesis
    unfolding main_def Let_def a e n ex_edge_attr upto_1_2
    by (simp add: e ex_epochs ex_report del: epoch_loop.simps)
qed

section \<open>A complete run\<close>

lemma count_step_events: "list_all step_event t \<Longrightarrow> count_list t ModelTrain = 0"
  by (induction t) auto

lemma train_batch_steps:
  "\<exists>t. trace (fst (train_batch nt nl b acc)) = trace (fst acc) @ t \<and> list_all step_event t"
proof -
  obtain s tot te where acc: "acc = (s, tot, te)"
    by (cases acc) auto
  show ?thesis
    unfolding acc
    by (simp add: Let_def case_prod_unfold model_call_def backward_and_step_def emit_def)
qed

lemma train_loop_steps:
  "\<exists>t. trace (fst (train_loop nt nl bs acc)) = trace (fst acc) @ t \<and> list_all step_event t"
proof (induction bs arbitrary: acc)
  case Nil
  then show ?case by simp
next
  case (Cons b bs)
  obtain t1 where t1: "trace (fst (train_batch nt nl b acc)) = trace (fst acc) @ t1"
    "list_all step_event t1"
    using train_batch_steps by blast
  obtain t2 where t2: "trace (fst (train_loop nt nl bs (train_batch nt nl b acc)))
      = trace (fst (train_batch nt nl b acc)) @ t2" "list_all step_event t2"
    using Cons.IH by blast
  show ?case
    using t1 t2 by (intro exI[of _ "t1 @ t2"]) simp
qed

lemma eval_loop_steps:
  "\<exists>t. trace (snd (eval_loop nt nl bs s A F)) = trace s @ t \<and> list_all step_event t"
proof (induction bs arbitrary: s A F)
  case Nil
  then show ?case by simp
next
  case (Cons b bs)
  let ?c = "model_call nt s (data_x b) (edge_index b) (sample_weight nl b)"
  have c: "trace (snd ?c) = trace s @ [Forward (aggr s) (sample_weight nl b \<noteq> None)]"
    by (simp add: model_call_simps)
  show ?case
  proof (cases "score b (fst ?c)")
    case (Inl e)
    then show ?thesis
      using c by (simp add: case_prod_unfold)
  next
    case (Inr v)
    obtain t where t: "trace (snd (eval_loop nt nl bs (snd ?c) (A @ [fst v]) (F @ [snd v])))
        = trace (snd ?c) @ t" "list_all step_event t"
      using Cons.IH by blast
    show ?thesis
      using t c Inr
      by (intro exI[of _ "Forward (aggr s) (sample_weight nl b \<noteq> None) # t"])
         (simp add: case_prod_unfold)
  qed
qed

lemma train_sample_trains:
  "count_list (trace (snd (train_sample nt loader nl s))) ModelTrain
     = Suc (count_list (trace s) ModelTrain)"
proof -
  let ?s3 = "(set_aggr Add (model_train s))\<lparr>passes := Suc (passes s)\<rparr>"
  let ?r = "train_loop nt nl (loader (passes s)) (?s3, Fin 0, 0)"
  have sn: "snd (train_sample nt loader nl s) = fst ?r"
    by (simp add: train_sample_def Let_def case_prod_unfold set_aggr_def model_train_def emit_def)
  obtain t where t: "trace (fst ?r) = trace ?s3 @ t" "list_all step_event t"
    using train_loop_steps[of nt nl "loader (passes s)" "(?s3, Fin 0, 0)"] by auto
  have s3: "trace ?s3 = trace s @ [ModelTrain, SetAggr Add]"
    by (simp add: set_aggr_def model_train_def emit_def)
  show ?thesis
    unfolding sn t(1) s3 by (simp add: count_list_app count_step_events[OF t(2)])
qed

lemma train_full_trains:
  "count_list (trace (snd (train_full nt d s))) ModelTrain = Suc (count_list (trace s) ModelTrain)"
  by (simp add: train_full_def Let_def set_aggr_def model_train_def emit_def model_call_def
        backward_and_step_def count_list_app)

lemma eval_sample_trains:
  "count_list (trace (snd (eval_sample nt loader nl s))) ModelTrain
     = count_list (trace s) ModelTrain"
proof -
  let ?s3 = "(set_aggr Add (model_eval s))\<lparr>passes := Suc (passes s)\<rparr>"
  let ?r = "eval_loop nt nl (loader (passes s)) ?s3 [] []"
  have sn: "snd (eval_sample nt loader nl s) = snd ?r"
    by (simp add: eval_sample_def Let_def set_aggr_def model_eval_def emit_def
          split: prod.splits sum.splits)
  obtain t where t: "trace (snd ?r) = trace ?s3 @ t" "list_all step_event t"
    using eval_loop_steps by blast
  have s3: "trace ?s3 = trace s @ [ModelEval, SetAggr Add]"
    by (simp add: set_aggr_def model_eval_def emit_def)
  show ?thesis
    unfolding sn t(1) s3 by (simp add: count_list_app count_step_events[OF t(2)])
qed

lemma eval_full_trains:
  "count_list (trace (snd (eval_full nt d s))) ModelTrain = count_list (trace s) ModelTrain"
  by (simp add: eval_full_def Let_def set_aggr_def model_eval_def emit_def model_call_def
        count_list_app)

lemma complete_pass_nodes:
  assumes "complete_pass bs"
  shows "sum_list (map num_nodes bs) \<noteq> 0"
proof -
  obtain b rest where bs: "bs = b # rest"
    using assms by (cases bs) (auto simp: complete_pass_def)
  have "0 < num_nodes b"
    using assms bs nonempty_mask_nodes[of b] by (simp add: complete_pass_def)
  then show ?thesis
    by (simp add: bs)
qed

text \<open>One epoch under the preconditions: both operations return, and exactly one
  training operation is run.\<close>

lemma epoch_steps_complete:
  assumes sp: "train_sample_flag a = 1 \<or> eval_sample_flag a = 1 \<Longrightarrow> \<forall>i. complete_pass (loader i)"
    and fl: "eval_sample_flag a \<noteq> 1 \<Longrightarrow> \<not> has_empty_mask d"
  shows "\<exists>loss s1 accs f1s s2.
       (if train_sample_flag a = 1 then train_sample nt loader (loss_norm a) s
        else train_full nt d s) = (Inr loss, s1)
     \<and> (if eval_sample_flag a = 1 then eval_sample nt loader (loss_norm a) s1
        else eval_full nt d s1) = (Inr (accs, f1s), s2)
     \<and> count_list (trace s2) ModelTrain = Suc (count_list (trace s) ModelTrain)"
proof -
  let ?t = "if train_sample_flag a = 1 then train_sample nt loader (loss_norm a) s
            else train_full nt d s"
  have "\<exists>l. fst ?t = Inr l"
  proof (cases "train_sample_flag a = 1")
    case True
    then have "complete_pass (loader (passes s))" using sp by simp
    then have "sum_list (map num_nodes (loader (passes s))) \<noteq> 0"
      by (rule complete_pass_nodes)
    then have "\<exists>l. fst (train_sample nt loader (loss_norm a) s) = Inr l"
      by (rule train_sample_returns[where loader = loader and s = s])
    with True show ?thesis by simp
  next
    case False
    then show ?thesis using train_full_returns[of nt d s] by simp
  qed
  then obtain l where l: "fst ?t = Inr l" by blast
  have ct: "count_list (trace (snd ?t)) ModelTrain = Suc (count_list (trace s) ModelTrain)"
    by (simp add: train_sample_trains train_full_trains)
  let ?v = "if eval_sample_flag a = 1 then eval_sample nt loader (loss_norm a) (snd ?t)
            else eval_full nt d (snd ?t)"
  have "\<exists>r. fst ?v = Inr r"
  proof (cases "eval_sample_flag a = 1")
    case True
    then have "complete_pass (loader (passes (snd ?t)))" using sp by simp
    then have "loader (passes (snd ?t)) \<noteq> []"
      "\<not> list_ex has_empty_mask (loader (passes (snd ?t)))"
      by (simp_all add: complete_pass_def)
    then have "\<exists>r. fst (eval_sample nt loader (loss_norm a) (snd ?t)) = Inr r"
      by (rule eval_sample_returns[where loader = loader and s = "snd ?t"])
    with True show ?thesis by simp
  next
    case False
    then have "\<not> has_empty_mask d" using fl by simp
    from score_returns[OF this] False show ?thesis
      by (simp add: eval_full_fst)
  qed
  then obtain accs f1s where r: "fst ?v = Inr (accs, f1s)" by fastforce
  have cv: "count_list (trace (snd ?v)) ModelTrain = count_list (trace (snd ?t)) ModelTrain"
    by (simp add: eval_sample_trains eval_full_trains)
  have tv: "?t = (Inr l, snd ?t)" "?v = (Inr (accs, f1s), snd ?v)"
    using l r by (simp_all add: prod_eq_iff)
  show ?thesis
    using tv ct cv
    by (intro exI[of _ l] exI[of _ "snd ?t"] exI[of _ accs] exI[of _ f1s] exI[of _ "snd ?v"])
       simp
qed

lemma epoch_body_value:
  assumes t: "(if train_sample_flag a = 1 then train_sample nt loader (loss_norm a) s
               else train_full nt d s) = (Inr loss, s1)"
    and v: "(if eval_sample_flag a = 1 then eval_sample nt loader (loss_norm a) s1
             else eval_full nt d s1) = (Inr (accs, f1s), s2)"
    and li: "log_interval a \<noteq> 0"
  shows "epoch_body nt loader d a ep s sm =
     (Inr \<lparr>summary_accs_train = summary_accs_train sm @ [accs ! 0],
           summary_accs_test = summary_accs_test sm @ [accs ! 2],
           summary_f1s_train = summary_f1s_train sm @ [f1s ! 0],
           summary_f1s_test = summary_f1s_test sm @ [f1s ! 2]\<rparr>,
      if ep mod log_interval a = 0
      then emit (InfoEpoch ep loss (accs ! 0) (f1s ! 0) (accs ! 2) (f1s ! 2)) s2 else s2)"
  unfolding epoch_body_def
  by (subst t, simp only: prod.case sum.case, subst v) (simp add: li Let_def)

text \<open>The epoch loop under the preconditions: it runs the epochs as the driver of the
  specification does and appends to the four summary lists the train and test entries of
  each epoch's accuracies and macro-F1 scores.\<close>

lemma epoch_loop_run:
  assumes li: "log_interval a \<noteq> 0"
    and sp: "train_sample_flag a = 1 \<or> eval_sample_flag a = 1 \<Longrightarrow> \<forall>i. complete_pass (loader i)"
    and fl: "eval_sample_flag a \<noteq> 1 \<Longrightarrow> \<not> has_empty_mask d"
  shows "\<exists>rs s'. epochs_run nt loader d a es s rs s' \<and> length rs = length es
     \<and> epoch_loop nt loader d a es s sm =
         (Inr \<lparr>summary_accs_train = summary_accs_train sm @ map (\<lambda>(l, accs, f1s). accs ! 0) rs,
               summary_accs_test = summary_accs_test sm @ map (\<lambda>(l, accs, f1s). accs ! 2) rs,
               summary_f1s_train = summary_f1s_train sm @ map (\<lambda>(l, accs, f1s). f1s ! 0) rs,
               summary_f1s_test = summary_f1s_test sm @ map (\<lambda>(l, accs, f1s). f1s ! 2) rs\<rparr>,
          s')
     \<and> count_list (trace s') ModelTrain = count_list (trace s) ModelTrain + length es"
proof (induction es arbitrary: s sm)
  case Nil
  show ?case
    by (intro exI[of _ "[]"] exI[of _ s]) (simp add: epochs_run.no_epoch)
next
  case (Cons ep es)
  obtain loss s1 accs f1s s2 where
    t: "(if train_sample_flag a = 1 then train_sample nt loader (loss_norm a) s
         else train_full nt d s) = (Inr loss, s1)"
    and v: "(if eval_sample_flag a = 1 then eval_sample nt loader (loss_norm a) s1
             else eval_full nt d s1) = (Inr (accs, f1s), s2)"
    and c: "count_list (trace s2) ModelTrain = Suc (count_list (trace s) ModelTrain)"
    using epoch_steps_complete[OF sp fl, where nt = nt and s = s] by blast
  let ?s3 = "if ep mod log_interval a = 0
             then emit (InfoEpoch ep loss (accs ! 0) (f1s ! 0) (accs ! 2) (f1s ! 2)) s2 else s2"
  let ?sm1 = "\<lparr>summary_accs_train = summary_accs_train sm @ [accs ! 0],
               summary_accs_test = summary_accs_test sm @ [accs ! 2],
               summary_f1s_train = summary_f1s_train sm @ [f1s ! 0],
               summary_f1s_test = summary_f1s_test sm @ [f1s ! 2]\<rparr>"
  have body: "epoch_body nt loader d a ep s sm = (Inr ?sm1, ?s3)"
    by (rule epoch_body_value[OF t v li])
  have c3: "count_list (trace ?s3) ModelTrain = Suc (count_list (trace s) ModelTrain)"
    using c by (simp add: emit_def count_list_app)
  obtain rs s' where run: "epochs_run nt loader d a es ?s3 rs s'" and len: "length rs = length es"
    and loop: "epoch_loop nt loader d a es ?s3 ?sm1 =
         (Inr \<lparr>summary_accs_train = summary_accs_train ?sm1 @ map (\<lambda>(l, accs, f1s). accs ! 0) rs,
               summary_accs_test = summary_accs_test ?sm1 @ map (\<lambda>(l, accs, f1s). accs ! 2) rs,
               summary_f1s_train = summary_f1s_train ?sm1 @ map (\<lambda>(l, accs, f1s). f1s ! 0) rs,
               summary_f1s_test = summary_f1s_test ?sm1 @ map (\<lambda>(l, accs, f1s). f1s ! 2) rs\<rparr>,
          s')"
    and cnt: "count_list (trace s') ModelTrain = count_list (trace ?s3) ModelTrain + length es"
    using Cons.IH[of ?s3 ?sm1] by blast
  have run': "epochs_run nt loader d a (ep # es) s ((loss, accs, f1s) # rs) s'"
    by (rule epochs_run.one_epoch[OF t v li refl run])
  have loop': "epoch_loop nt loader d a (ep # es) s sm =
         (Inr \<lparr>summary_accs_train = summary_accs_train sm
                  @ map (\<lambda>(l, accs, f1s). accs ! 0) ((loss, accs, f1s) # rs),
               summary_accs_test = summary_accs_test sm
                  @ map (\<lambda>(l, accs, f1s). accs ! 2) ((loss, accs, f1s) # rs),
               summary_f1s_train = summary_f1s_train sm
                  @ map (\<lambda>(l, accs, f1s). f1s ! 0) ((loss, accs, f1s) # rs),
               summary_f1s_test = summary_f1s_test sm
                  @ map (\<lambda>(l, accs, f1s). f1s ! 2) ((loss, accs, f1s) # rs)\<rparr>,
          s')"
    using loop by (simp add: body)
  show ?case
    using run' len loop' cnt c3
    by (intro exI[of _ "(loss, accs, f1s) # rs"] exI[of _ s']) simp
qed

lemma report_value:
  assumes "rs \<noteq> []"
  shows "report \<lparr>summary_accs_train = map (\<lambda>(l, accs, f1s). accs ! 0) rs,
                 summary_accs_test = map (\<lambda>(l, accs, f1s). accs ! 2) rs,
                 summary_f1s_train = map (\<lambda>(l, accs, f1s). f1s ! 0) rs,
                 summary_f1s_test = map (\<lambda>(l, accs, f1s). f1s ! 2) rs\<rparr> s
         = (Inr (archive_of rs), s\<lparr>trace := trace s @ report_events rs\<rparr>)"
  using assms
  by (simp add: report_def best_line_def Let_def emit_def archive_of_def report_events_def)

lemma report_events_trains: "count_list (report_events rs) ModelTrain = 0"
  by (simp add: report_events_def Let_def)

text \<open>
  C6, amended. With recognised names on a loaded graph: a run over \<open>E \<ge> 1\<close> epochs in
  which every step completes (a non-zero log interval, complete passes where a sampled
  operation is used, no empty mask on the graph where full evaluation is used) runs per
  epoch one training operation, which returns that epoch's loss, and one evaluation, and
  ends by writing the archive of exactly the four arrays \<open>train_acc\<close>, \<open>test_acc\<close>,
  \<open>train_f1\<close>, \<open>test_f1\<close>, each of length \<open>E\<close>, holding epoch by epoch the train and
  test entries of that epoch's accuracies and macro-F1 scores. With \<open>E \<le> 0\<close> the run
  raises ValueError after the two header lines of the summary and writes no archive.
\<close>

theorem run_writes_archive:
  assumes ds: "dataset a = ''flickr'' \<or> dataset a = ''reddit''"
    and g: "set_edge_attr (datasets ev (dataset a)) = Inr g"
    and smp: "sampler a = ''rw'' \<and> k = GraphSAINTRandomWalkSampler
              \<or> sampler a = ''rn'' \<and> k = MySAINTSampler"
    and gcn: "gcn_type a = ''sage'' \<and> n = SAGENet \<or> gcn_type a = ''gat'' \<and> n = GATNet"
  shows "(1 \<le> epochs a \<and> log_interval a \<noteq> 0
          \<and> (train_sample_flag a = 1 \<or> eval_sample_flag a = 1 \<longrightarrow>
               (\<forall>i. complete_pass (samplers ev k g (batch_size a) i)))
          \<and> (eval_sample_flag a \<noteq> 1 \<longrightarrow> \<not> has_empty_mask g) \<longrightarrow>
          (\<exists>rs s'. epochs_run (nets ev n) (samplers ev k g (batch_size a)) g a [1..epochs a]
                      (initial_state ev a n k) rs s'
             \<and> length rs = nat (epochs a)
             \<and> main ev a = (Inr (archive_of rs), trace s' @ report_events rs)
             \<and> map fst (archive_of rs) = [''train_acc'', ''test_acc'', ''train_f1'', ''test_f1'']
             \<and> list_all (\<lambda>p. length (snd p) = nat (epochs a)) (archive_of rs)
             \<and> count_list (trace s' @ report_events rs) ModelTrain = nat (epochs a)))
       \<and> (epochs a \<le> 0 \<longrightarrow>
            main ev a = (Inl ValueError,
                         trace (initial_state ev a n k) @ [InfoResults, InfoSetting]))"
proof -
  let ?loader = "samplers ev k g (batch_size a)"
  let ?s0 = "initial_state ev a n k"
  let ?sm0 = "\<lparr>summary_accs_train = [], summary_accs_test = [],
               summary_f1s_train = [], summary_f1s_test = []\<rparr>"
  have c: "(dataset a \<noteq> ''flickr'' \<and> dataset a \<noteq> ''reddit'') = False"
    using ds by auto
  have kk: "(if sampler a = ''rw'' then Some GraphSAINTRandomWalkSampler
             else if sampler a = ''rn'' then Some MySAINTSampler else None) = Some k"
    using smp by auto
  have nn: "Net_lookup (gcn_type a) = Some n"
    using gcn by (auto simp: Net_lookup_def)
  have m: "main ev a =
      (case epoch_loop (nets ev n) ?loader g a [1..epochs a] ?s0 ?sm0 of
         (Inl e, s1) \<Rightarrow> (Inl e, trace s1)
       | (Inr sm, s1) \<Rightarrow> (case report sm s1 of (r, s2) \<Rightarrow> (r, trace s2)))"
    unfolding main_def Let_def c if_False g sum.case kk option.case nn
    by (simp add: initial_state_def)
  have pos: "1 \<le> epochs a \<and> log_interval a \<noteq> 0
          \<and> (train_sample_flag a = 1 \<or> eval_sample_flag a = 1 \<longrightarrow>
               (\<forall>i. complete_pass (?loader i)))
          \<and> (eval_sample_flag a \<noteq> 1 \<longrightarrow> \<not> has_empty_mask g) \<longrightarrow>
          (\<exists>rs s'. epochs_run (nets ev n) ?loader g a [1..epochs a] ?s0 rs s'
             \<and> length rs = nat (epochs a)
             \<and> main ev a = (Inr (archive_of rs), trace s' @ report_events rs)
             \<and> map fst (archive_of rs) = [''train_acc'', ''test_acc'', ''train_f1'', ''test_f1'']
             \<and> list_all (\<lambda>p. length (snd p) = nat (epochs a)) (archive_of rs)
             \<and> count_list (trace s' @ report_events rs) ModelTrain = nat (epochs a))"
  proof
    assume h: "1 \<le> epochs a \<and> log_interval a \<noteq> 0
          \<and> (train_sample_flag a = 1 \<or> eval_sample_flag a = 1 \<longrightarrow>
               (\<forall>i. complete_pass (?loader i)))
          \<and> (eval_sample_flag a \<noteq> 1 \<longrightarrow> \<not> has_empty_mask g)"
    then have li: "log_interval a \<noteq> 0"
      and sp: "train_sample_flag a = 1 \<or> eval_sample_flag a = 1 \<Longrightarrow> \<forall>i. complete_pass (?loader i)"
      and fl: "eval_sample_flag a \<noteq> 1 \<Longrightarrow> \<not> has_empty_mask g"
      and ep: "1 \<le> epochs a"
      by blast+
    have len: "length [1..epochs a] = nat (epochs a)"
      by simp
    obtain rs s' where run: "epochs_run (nets ev n) ?loader g a [1..epochs a] ?s0 rs s'"
      and lrs: "length rs = nat (epochs a)"
      and loop: "epoch_loop (nets ev n) ?loader g a [1..epochs a] ?s0 ?sm0 =
         (Inr \<lparr>summary_accs_train = map (\<lambda>(l, accs, f1s). accs ! 0) rs,
               summary_accs_test = map (\<lambda>(l, accs, f1s). accs ! 2) rs,
               summary_f1s_train = map (\<lambda>(l, accs, f1s). f1s ! 0) rs,
               summary_f1s_test = map (\<lambda>(l, accs, f1s). f1s ! 2) rs\<rparr>, s')"
      and cnt: "count_list (trace s') ModelTrain = nat (epochs a)"
      using epoch_loop_run[OF li sp fl, of "nets ev n" "[1..epochs a]" ?s0 ?sm0]
      unfolding len by (auto simp: initial_state_def)
    have ne: "rs \<noteq> []"
      using lrs ep by auto
    have mm: "main ev a = (Inr (archive_of rs), trace s' @ report_events rs)"
      unfolding m loop by (simp add: report_value[OF ne])
    have names: "map fst (archive_of rs) = [''train_acc'', ''test_acc'', ''train_f1'', ''test_f1'']"
      by (simp add: archive_of_def)
    have lens: "list_all (\<lambda>p. length (snd p) = nat (epochs a)) (archive_of rs)"
      by (simp add: archive_of_def lrs)
    have ct: "count_list (trace s' @ report_events rs) ModelTrain = nat (epochs a)"
      by (simp add: count_list_app cnt report_events_trains)
    show "\<exists>rs s'. epochs_run (nets ev n) ?loader g a [1..epochs a] ?s0 rs s'
             \<and> length rs = nat (epochs a)
             \<and> main ev a = (Inr (archive_of rs), trace s' @ report_events rs)
             \<and> map fst (archive_of rs) = [''train_acc'', ''test_acc'', ''train_f1'', ''test_f1'']
             \<and> list_all (\<lambda>p. length (snd p) = nat (epochs a)) (archive_of rs)
             \<and> count_list (trace s' @ report_events rs) ModelTrain = nat (epochs a)"
      using run lrs mm names lens ct by (intro exI[of _ rs] exI[of _ s'] conjI)
  qed
  have zero: "epochs a \<le> 0 \<longrightarrow>
      main ev a = (Inl ValueError, trace ?s0 @ [InfoResults, InfoSetting])"
  proof
    assume "epochs a \<le> 0"
    then have u: "[1..epochs a] = []"
      by (simp add: upto.simps)
    show "main ev a = (Inl ValueError, trace ?s0 @ [InfoResults, InfoSetting])"
      unfolding m u by (simp add: report_def best_line_def Let_def emit_def)
  qed
  from pos zero show ?thesis by blast
qed

theorem run_writes_archive_witness:
  "dataset ex_args = ''flickr''
   \<and> set_edge_attr (datasets ex_env (dataset ex_args)) = Inr ex_graph
   \<and> sampler ex_args = ''rn'' \<and> gcn_type ex_args = ''sage''
   \<and> 1 \<le> epochs ex_args \<and> epochs ex_args = 2 \<and> log_interval ex_args \<noteq> 0
   \<and> eval_sample_flag ex_args = 1
   \<and> (\<forall>i. complete_pass (samplers ex_env MySAINTSampler ex_graph (batch_size ex_args) i))
   \<and> (\<exists>rs s'. epochs_run (nets ex_env SAGENet)
                  (samplers ex_env MySAINTSampler ex_graph (batch_size ex_args)) ex_graph ex_args
                  [1..epochs ex_args] (initial_state ex_env ex_args SAGENet MySAINTSampler) rs s'
         \<and> length rs = 2
         \<and> main ex_env ex_args = (Inr (archive_of rs), trace s' @ report_events rs)
         \<and> map fst (archive_of rs) = [''train_acc'', ''test_acc'', ''train_f1'', ''test_f1'']
         \<and> list_all (\<lambda>p. length (snd p) = 2) (archive_of rs)
         \<and> count_list (trace s' @ report_events rs) ModelTrain = 2)
   \<and> epochs (ex_args\<lparr>epochs := 0\<rparr>) \<le> 0
   \<and> main ex_env (ex_args\<lparr>epochs := 0\<rparr>)
       = (Inl ValueError,
          trace (initial_state ex_env (ex_args\<lparr>epochs := 0\<rparr>) SAGENet MySAINTSampler)
            @ [InfoResults, InfoSetting])"
proof -
  have a: "dataset ex_args = ''flickr''" "sampler ex_args = ''rn''" "gcn_type ex_args = ''sage''"
    "epochs ex_args = 2" "log_interval ex_args \<noteq> 0" "eval_sample_flag ex_args = 1"
    "1 \<le> epochs ex_args"
    by (simp_all add: ex_args_def)
  have g: "set_edge_attr (datasets ex_env (dataset ex_args)) = Inr ex_graph"
    by (simp add: a ex_env_def ex_edge_attr)
  have cp: "\<forall>i. complete_pass (samplers ex_env MySAINTSampler ex_graph (batch_size ex_args) i)"
    by (simp add: complete_pass_def wf_data_def num_nodes_def has_empty_mask_def empty_mask_def
          masks_def ex_env_def ex_batch_def)
  have h1: "dataset ex_args = ''flickr'' \<or> dataset ex_args = ''reddit''"
    and h3: "sampler ex_args = ''rw'' \<and> MySAINTSampler = GraphSAINTRandomWalkSampler
            \<or> sampler ex_args = ''rn'' \<and> MySAINTSampler = MySAINTSampler"
    and h4: "gcn_type ex_args = ''sage'' \<and> SAGENet = SAGENet
            \<or> gcn_type ex_args = ''gat'' \<and> SAGENet = GATNet"
    using a by simp_all
  note th = run_writes_archive[OF h1 g h3 h4]
  have one: "\<exists>rs s'. epochs_run (nets ex_env SAGENet)
                  (samplers ex_env MySAINTSampler ex_graph (batch_size ex_args)) ex_graph ex_args
                  [1..epochs ex_args] (initial_state ex_env ex_args SAGENet MySAINTSampler) rs s'
         \<and> length rs = nat (epochs ex_args)
         \<and> main ex_env ex_args = (Inr (archive_of rs), trace s' @ report_events rs)
         \<and> map fst (archive_of rs) = [''train_acc'', ''test_acc'', ''train_f1'', ''test_f1'']
         \<and> list_all (\<lambda>p. length (snd p) = nat (epochs ex_args)) (archive_of rs)
         \<and> count_list (trace s' @ report_events rs) ModelTrain = nat (epochs ex_args)"
    using th a(5,6,7) cp by blast
  have n2: "nat (epochs ex_args) = 2"
    by (simp add: a)
  have z: "dataset (ex_args\<lparr>epochs := 0\<rparr>) = ''flickr'' \<or> dataset (ex_args\<lparr>epochs := 0\<rparr>) = ''reddit''"
    "set_edge_attr (datasets ex_env (dataset (ex_args\<lparr>epochs := 0\<rparr>))) = Inr ex_graph"
    "sampler (ex_args\<lparr>epochs := 0\<rparr>) = ''rw'' \<and> MySAINTSampler = GraphSAINTRandomWalkSampler
       \<or> sampler (ex_args\<lparr>epochs := 0\<rparr>) = ''rn'' \<and> MySAINTSampler = MySAINTSampler"
    "gcn_type (ex_args\<lparr>epochs := 0\<rparr>) = ''sage'' \<and> SAGENet = SAGENet
       \<or> gcn_type (ex_args\<lparr>epochs := 0\<rparr>) = ''gat'' \<and> SAGENet = GATNet"
    "epochs (ex_args\<lparr>epochs := 0\<rparr>) \<le> 0"
    using a g by simp_all
  have two: "main ex_env (ex_args\<lparr>epochs := 0\<rparr>)
       = (Inl ValueError,
          trace (initial_state ex_env (ex_args\<lparr>epochs := 0\<rparr>) SAGENet MySAINTSampler)
            @ [InfoResults, InfoSetting])"
    using run_writes_archive[OF z(1) z(2) z(3) z(4)] z(5) by blast
  show ?thesis
    using a g cp one[unfolded n2] z(5) two by (intro conjI)
qed

theorem run_zero_epochs_counterexample:
  "main ex_env (ex_args\<lparr>epochs := 0\<rparr>) =
     (Inl ValueError,
      [InfoModelSetting, InfoDataset ''flickr'', InfoSampler MySAINTSampler,
       InfoGCNType ''sage'', Construct SAGENet, InfoResults, InfoSetting])"
proof -
  have a: "dataset (ex_args\<lparr>epochs := 0\<rparr>) = ''flickr''" "sampler (ex_args\<lparr>epochs := 0\<rparr>) = ''rn''"
    "gcn_type (ex_args\<lparr>epochs := 0\<rparr>) = ''sage''" "epochs (ex_args\<lparr>epochs := 0\<rparr>) = 0"
    by (simp_all add: ex_args_def)
  have e: "datasets ex_env ''flickr'' = ex_data"
    by (simp add: ex_env_def)
  have n: "Net_lookup ''sage'' = Some SAGENet"
    by (simp add: Net_lookup_def)
  have u: "[1..0::int] = []"
    by (simp add: upto.simps)
  show ?thesis
    unfolding main_def Let_def a e n ex_edge_attr u
    by (simp add: report_def best_line_def Let_def emit_def)
qed

text \<open>
  C4. The run of two epochs on the small example: the test accuracy is 0 in the epoch logged
  as 1 and 1 in the epoch logged as 2; the summary reports the best accuracy 1 and the best
  macro-F1 1 with the paired metric of that epoch, but with the epoch index 1: the position
  counted from 0, not the index of the per-epoch log lines.
\<close>

theorem best_epoch_counted_from_zero:
  "main ex_env ex_args =
     (Inr [(''train_acc'', [0, 1]), (''test_acc'', [0, 1]),
           (''train_f1'', [0, 1]), (''test_f1'', [0, 1])],
      [InfoModelSetting, InfoDataset ''flickr'', InfoSampler MySAINTSampler,
       InfoGCNType ''sage'', Construct SAGENet,
       ModelTrain, SetAggr Add, ZeroGrad, Forward Add True, Backward (Fin 5), OptStep,
       ModelEval, SetAggr Add, Forward Add True, InfoEpoch 1 (Fin 5) 0 0 0 0,
       ModelTrain, SetAggr Add, ZeroGrad, Forward Add True, Backward (Fin 3), OptStep,
       ModelEval, SetAggr Add, Forward Add True, InfoEpoch 2 (Fin 3) 1 1 1 1,
       InfoResults, InfoSetting, InfoBestAcc 1 1 1, InfoBestF1 1 1 1,
       Savez [(''train_acc'', [0, 1]), (''test_acc'', [0, 1]),
              (''train_f1'', [0, 1]), (''test_f1'', [0, 1])],
       InfoSaveSummary, InfoSaveLogs])"
  by (rule ex_run)

end
